theory Spec2Isabelle
  imports Main "HOL-Library.Char_ord" "HOL-Library.List_Lexorder"
begin

section \<open>Data frames\<close>

text \<open>
  A pandas \<open>DataFrame\<close> is kept as its column names and its rows in positional order, each
  row with its index label. A row maps a column name to a cell; a missing cell (\<open>NaN\<close>)
  is \<open>None\<close>. Index labels matter: \<open>DataFrame.drop(index=...)\<close> removes rows by
  label, not by position, and raises \<open>KeyError\<close> for a label that is not in the index.
\<close>

type_synonym 'v row = "string \<rightharpoonup> 'v"

record 'v frame =
  columns :: "string list"
  entries :: "(int \<times> 'v row) list"

datatype error =
    KeyError_not_found_in_axis "int list"
  | KeyError_monitor string
  | AttributeError_config
  | ValueError_duplicated_timeseries string
  | ValueError_missing_label_values
  | ValueError_no_label_names
  | ValueError_incorrect_label_names
  | Engine_error string

definition rows_of :: "'v frame \<Rightarrow> 'v row list" where
  "rows_of f = map snd (entries f)"

definition index_of :: "'v frame \<Rightarrow> int list" where
  "index_of f = map fst (entries f)"

text \<open>\<open>df.shape[0]\<close>\<close>

definition shape0 :: "'v frame \<Rightarrow> int" where
  "shape0 f = int (length (entries f))"

text \<open>\<open>range(a, b)\<close>, empty when \<open>b \<le> a\<close>.\<close>

definition py_range :: "int \<Rightarrow> int \<Rightarrow> int list" where
  "py_range a b = [a..b - 1]"

text \<open>The labels \<open>0, 1, ..., n - 1\<close> of a fresh \<open>RangeIndex\<close>.\<close>

definition range_index :: "nat \<Rightarrow> int list" where
  "range_index n = map int [0..<n]"

text \<open>
  The position a slice bound \<open>k\<close> denotes in a sequence of \<open>n\<close> items: a negative bound
  counts from the end, and every bound is clipped to \<open>0..n\<close>. Note that \<open>-0\<close> is \<open>0\<close>.
\<close>

definition slice_bound :: "nat \<Rightarrow> int \<Rightarrow> nat" where
  "slice_bound n k = (if k < 0 then nat (max (int n + k) 0) else min (nat k) n)"

text \<open>\<open>df.iloc[:k, :]\<close> and \<open>df.iloc[k:, :]\<close>\<close>

definition iloc_upto :: "'v frame \<Rightarrow> int \<Rightarrow> 'v frame" where
  "iloc_upto f k = f\<lparr>entries := take (slice_bound (length (entries f)) k) (entries f)\<rparr>"

definition iloc_from :: "'v frame \<Rightarrow> int \<Rightarrow> 'v frame" where
  "iloc_from f k = f\<lparr>entries := drop (slice_bound (length (entries f)) k) (entries f)\<rparr>"

text \<open>
  \<open>pandas.DataFrame().reindex_like(other)\<close>: the index and the columns of \<open>other\<close>, every
  cell missing.
\<close>

definition reindex_like :: "'v frame \<Rightarrow> 'v frame" where
  "reindex_like other =
     \<lparr>columns = columns other, entries = map (\<lambda>(l, r). (l, Map.empty)) (entries other)\<rparr>"

text \<open>\<open>df.dropna()\<close>: keeps the rows that have no missing cell in any column.\<close>

definition dropna :: "'v frame \<Rightarrow> 'v frame" where
  "dropna f = f\<lparr>entries := filter (\<lambda>(l, r). \<forall>c \<in> set (columns f). r c \<noteq> None) (entries f)\<rparr>"

text \<open>\<open>pd.DataFrame(columns=cols)\<close>: no rows.\<close>

definition empty_frame :: "string list \<Rightarrow> 'v frame" where
  "empty_frame cols = \<lparr>columns = cols, entries = []\<rparr>"

text \<open>
  \<open>df.append(other, ignore_index=True)\<close>: the rows of \<open>df\<close> followed by the rows of
  \<open>other\<close>, relabelled \<open>0..n-1\<close>; the columns are the union, those of \<open>df\<close> first.
\<close>

definition append_frame :: "'v frame \<Rightarrow> 'v frame \<Rightarrow> 'v frame" where
  "append_frame f other =
     \<lparr>columns = columns f @ filter (\<lambda>c. c \<notin> set (columns f)) (columns other),
      entries = zip (range_index (length (entries f) + length (entries other)))
                    (map snd (entries f) @ map snd (entries other))\<rparr>"

text \<open>
  \<open>df.drop(index=labels, inplace=True)\<close>: removes the rows whose label is listed; a listed
  label that is not in the index raises \<open>KeyError\<close> and nothing is removed.
\<close>

definition drop_index :: "'v frame \<Rightarrow> int list \<Rightarrow> error + 'v frame" where
  "drop_index f labels =
     (if \<forall>l \<in> set labels. l \<in> set (map fst (entries f))
      then Inr (f\<lparr>entries := filter (\<lambda>(l, r). l \<notin> set labels) (entries f)\<rparr>)
      else Inl (KeyError_not_found_in_axis
                  (filter (\<lambda>l. l \<notin> set (map fst (entries f))) labels)))"

text \<open>\<open>df.reset_index(drop=True, inplace=True)\<close>\<close>

definition reset_index :: "'v frame \<Rightarrow> 'v frame" where
  "reset_index f = f\<lparr>entries := zip (range_index (length (entries f))) (map snd (entries f))\<rparr>"

text \<open>
  Lines 108 and 110 of \<open>MonitoringService.iterate\<close> (and 90 to 95 of \<open>Monitor.iterate\<close>):
  drop the labels \<open>0 .. current_size - target - 1\<close>, then reset the index.
\<close>

definition trim :: "'v frame \<Rightarrow> int \<Rightarrow> error + 'v frame" where
  "trim f target_size =
     (case drop_index f (py_range 0 (shape0 f - target_size)) of
        Inl e \<Rightarrow> Inl e
      | Inr dropped \<Rightarrow> Inr (reset_index dropped))"

section \<open>Gauges\<close>

text \<open>
  Modelled from the spec: the \<open>Gauge\<close> class and the collector registry belong to the
  metrics-exposition library, which is not part of the repository. A gauge has the label
  names fixed when it was constructed and one sample per tuple of label values (the empty
  tuple for a gauge without labels); publishing with a label-key set other than the one
  fixed at construction is an error (sections 3 and 4.4 of the specification). The registry
  is the list of the names for which a gauge has been constructed in the process, in the
  order of construction; as in the library, a second gauge of a registered name is refused.
  The library's checks of the syntax of names are left out: names and label keys are taken
  as well formed. A keyword dictionary is a list of pairs with distinct keys.
\<close>

type_synonym labels = "(string \<times> string) list"

record 'm gauge =
  labelnames :: "string list"
  samples :: "string list \<rightharpoonup> 'm"

text \<open>\<open>Gauge(name, "", labelnames)\<close>, against the registry of the process.\<close>

definition Gauge :: "string list \<Rightarrow> string \<Rightarrow> string list \<Rightarrow> error + ('m gauge \<times> string list)" where
  "Gauge registry_names name names =
     (if name \<in> set registry_names then Inl (ValueError_duplicated_timeseries name)
      else Inr (\<lparr>labelnames = names, samples = Map.empty\<rparr>, registry_names @ [name]))"

text \<open>\<open>g.set(value)\<close>\<close>

definition gauge_set :: "'m gauge \<Rightarrow> 'm \<Rightarrow> error + 'm gauge" where
  "gauge_set g v =
     (if labelnames g \<noteq> [] then Inl ValueError_missing_label_values
      else Inr (g\<lparr>samples := (samples g)([] \<mapsto> v)\<rparr>))"

text \<open>
  The tuple of label values of a keyword dictionary, in the order of the gauge's label names.
\<close>

definition labelvalues :: "string list \<Rightarrow> labels \<Rightarrow> string list" where
  "labelvalues names kw = map (\<lambda>l. case map_of kw l of Some x \<Rightarrow> x | None \<Rightarrow> []) names"

text \<open>\<open>g.labels(**kw).set(value)\<close>\<close>

definition gauge_labels_set :: "'m gauge \<Rightarrow> labels \<Rightarrow> 'm \<Rightarrow> error + 'm gauge" where
  "gauge_labels_set g kw v =
     (if labelnames g = [] then Inl ValueError_no_label_names
      else if sort (map fst kw) \<noteq> sort (labelnames g) then Inl ValueError_incorrect_label_names
      else Inr (g\<lparr>samples := (samples g)(labelvalues (labelnames g) kw \<mapsto> v)\<rparr>))"

section \<open>The monitoring service\<close>

record monitoring_service_options =
  reference_path :: string
  min_reference_size :: int
  use_reference :: bool
  moving_reference :: bool
  window_size :: int
  calculation_period_sec :: int
  monitors :: "string list"

datatype monitor = DataDriftMonitor | ConceptDriftMonitor | RegressionPerformanceMonitor

definition monitor_mapping :: "string \<rightharpoonup> monitor" where
  "monitor_mapping =
     [''data_drift'' \<mapsto> DataDriftMonitor,
      ''concept_drift'' \<mapsto> ConceptDriftMonitor,
      ''regression_performance'' \<mapsto> RegressionPerformanceMonitor]"

text \<open>\<open>[monitor_mapping[k] for k in options.monitors]\<close>: an unknown key raises.\<close>

fun lookup_monitors :: "string list \<Rightarrow> error + monitor list" where
  "lookup_monitors [] = Inr []"
| "lookup_monitors (k # ks) =
     (case monitor_mapping k of
        None \<Rightarrow> Inl (KeyError_monitor k)
      | Some m \<Rightarrow> (case lookup_monitors ks of Inl e \<Rightarrow> Inl e | Inr ms \<Rightarrow> Inr (m # ms)))"

text \<open>
  The collaborators outside the repository, taken as parameters. The statistical engine is
  two calls. \<open>ModelMonitoring.execute\<close> (line 119) either raises or leaves its analysis
  in the monitoring object. \<open>ModelMonitoring.metrics()\<close> (line 121) is a generator over
  that analysis: it yields triples (metric name, value, optional labels) one at a time and
  may end with an exception after any number of them; it is given as the list of the triples
  it yields and the exception that ends it, if any. The fingerprint is
  \<open>sha256(hash_pandas_object(frame))\<close>.
\<close>

record ('v, 'c, 'm, 'a) collaborators =
  execute :: "monitor list \<Rightarrow> 'v frame \<Rightarrow> 'v frame \<Rightarrow> 'c \<Rightarrow> error + 'a"
  monitoring_metrics :: "'a \<Rightarrow> (string \<times> 'm \<times> labels option) list \<times> error option"
  fingerprint :: "'v frame \<Rightarrow> string"

record ('v, 'c, 'm) monitoring_service =
  monitoring :: "monitor list"
  reference :: "'v frame"
  current :: "'v frame"
  column_mapping :: 'c
  options :: monitoring_service_options
  metrics :: "string \<rightharpoonup> 'm gauge"
  new_rows :: int
  hash :: string
  hash_metric :: "int gauge"

text \<open>
  What a call touches outside the service object: the collector registry, the application
  log, and the calls made to the statistical engine (its three arguments).
\<close>

datatype log_record = Info_not_enough_data int int

record ('v, 'c) process =
  registry :: "string list"
  logger :: "log_record list"
  executed :: "('v frame \<times> 'v frame \<times> 'c) list"

text \<open>\<open>MonitoringService.__init__\<close>, lines 68 to 82 of \<open>app.py\<close>.\<close>

definition MonitoringService ::
  "('v, 'c, 'm, 'a) collaborators \<Rightarrow> 'v frame \<Rightarrow> monitoring_service_options \<Rightarrow> 'c
   \<Rightarrow> ('v, 'c) process \<Rightarrow> error + (('v, 'c, 'm) monitoring_service \<times> ('v, 'c) process)" where
  "MonitoringService env reference_arg opts cm g =
     (case lookup_monitors (monitors opts) of
        Inl e \<Rightarrow> Inl e
      | Inr ms \<Rightarrow>
          let ref = (if use_reference opts then iloc_upto reference_arg (- window_size opts)
                     else reference_arg);
              cur = (if use_reference opts then iloc_from reference_arg (- window_size opts)
                     else dropna (reindex_like reference_arg))
          in (case Gauge (registry g) ''evidently:reference_dataset_hash'' [''hash''] of
                Inl e \<Rightarrow> Inl e
              | Inr (hm, reg) \<Rightarrow>
                  Inr (\<lparr>monitoring = ms, reference = ref, current = cur, column_mapping = cm,
                        options = opts, metrics = Map.empty, new_rows = 0,
                        hash = fingerprint env ref, hash_metric = hm\<rparr>,
                       g\<lparr>registry := reg\<rparr>)))"

text \<open>Lines 122 to 130: one round of the loop over the engine's triples.\<close>

definition publish ::
  "string \<times> 'm \<times> labels option \<Rightarrow> (string \<rightharpoonup> 'm gauge) \<times> string list
   \<Rightarrow> error option \<times> (string \<rightharpoonup> 'm gauge) \<times> string list" where
  "publish t st =
     (case t of (name, v, lbls) \<Rightarrow> case st of (ms, reg) \<Rightarrow>
        let metric_key = ''evidently:'' @ name in
        (case (case ms metric_key of
                 None \<Rightarrow>
                   (case Gauge reg metric_key
                           (case lbls of None \<Rightarrow> [] | Some kw \<Rightarrow> sort (map fst kw)) of
                      Inl e \<Rightarrow> Inl e
                    | Inr (g, reg') \<Rightarrow> Inr (g, ms(metric_key \<mapsto> g), reg'))
               | Some g \<Rightarrow> Inr (g, ms, reg)) of
           Inl e \<Rightarrow> (Some e, ms, reg)
         | Inr (found, ms', reg') \<Rightarrow>
             (case (case lbls of None \<Rightarrow> gauge_set found v
                               | Some kw \<Rightarrow> gauge_labels_set found kw v) of
                Inl e \<Rightarrow> (Some e, ms', reg')
              | Inr found' \<Rightarrow> (None, ms'(metric_key \<mapsto> found'), reg'))))"

text \<open>The rounds of lines 122 to 130 for a list of triples: an exception ends them.\<close>

fun publish_all ::
  "(string \<times> 'm \<times> labels option) list \<Rightarrow> (string \<rightharpoonup> 'm gauge) \<times> string list
   \<Rightarrow> error option \<times> (string \<rightharpoonup> 'm gauge) \<times> string list" where
  "publish_all [] st = (None, st)"
| "publish_all (t # ts) st =
     (case publish t st of
        (Some e, st') \<Rightarrow> (Some e, st')
      | (None, st') \<Rightarrow> publish_all ts st')"

text \<open>
  The loop of lines 121 to 130 over the generator: each triple is published as it is
  yielded; a round that raises ends the loop and the generator is not resumed; when every
  yielded triple is published, the exception the generator ends with, if any, leaves the
  loop.
\<close>

definition publish_metrics ::
  "(string \<times> 'm \<times> labels option) list \<times> error option
   \<Rightarrow> (string \<rightharpoonup> 'm gauge) \<times> string list
   \<Rightarrow> error option \<times> (string \<rightharpoonup> 'm gauge) \<times> string list" where
  "publish_metrics gen st =
     (case gen of (yielded, ending) \<Rightarrow>
        (case publish_all yielded st of
           (Some e, st') \<Rightarrow> (Some e, st')
         | (None, st') \<Rightarrow> (ending, st')))"

text \<open>
  \<open>MonitoringService.iterate\<close>, lines 93 to 130 of \<open>app.py\<close>. The result is the
  exception that left the call, if any, with the service object and the process as the call
  left them: what was assigned before an exception stays assigned.
\<close>

definition iterate ::
  "('v, 'c, 'm, 'a) collaborators \<Rightarrow> 'v frame
   \<Rightarrow> ('v, 'c, 'm) monitoring_service \<times> ('v, 'c) process
   \<Rightarrow> error option \<times> ('v, 'c, 'm) monitoring_service \<times> ('v, 'c) process" where
  "iterate env new_rows_arg st =
     (case st of (self0, g) \<Rightarrow>
        let rows_count = shape0 new_rows_arg;
            self1 = self0\<lparr>current := append_frame (current self0) new_rows_arg\<rparr>;
            self2 = self1\<lparr>new_rows := new_rows self1 + rows_count\<rparr>;
            current_size = shape0 (current self2)
        in if current_size < window_size (options self2)
           then (None, self2,
                 g\<lparr>logger := logger g
                      @ [Info_not_enough_data current_size (window_size (options self2))]\<rparr>)
           else
             (case drop_index (current self2)
                     (py_range 0 (current_size - window_size (options self2))) of
                Inl e \<Rightarrow> (Some e, self2, g)
              | Inr dropped \<Rightarrow>
                  let self3 = self2\<lparr>current := reset_index dropped\<rparr>;
                      self4 = self3\<lparr>new_rows := new_rows self3 - rows_count\<rparr>;
                      g1 = g\<lparr>executed := executed g
                             @ [(reference self4, current self4, column_mapping self4)]\<rparr>
                  in (case execute env (monitoring self4) (reference self4) (current self4)
                             (column_mapping self4) of
                        Inl e \<Rightarrow> (Some e, self4, g1)
                      | Inr analysis \<Rightarrow>
                          (case gauge_labels_set (hash_metric self4)
                                  [(''hash'', hash self4)] 1 of
                             Inl e \<Rightarrow> (Some e, self4, g1)
                           | Inr hm \<Rightarrow>
                               let self5 = self4\<lparr>hash_metric := hm\<rparr>
                               in (case publish_metrics (monitoring_metrics env analysis)
                                          (metrics self5, registry g1) of
                                     (res, ms, reg) \<Rightarrow>
                                       (res, self5\<lparr>metrics := ms\<rparr>,
                                        g1\<lparr>registry := reg\<rparr>))))))"

text \<open>
  A sequence of ingestion calls on the long-lived service: an exception ends one call,
  not the process, so the next call starts from the state the failed one left.
\<close>

fun iterate_all ::
  "('v, 'c, 'm, 'a) collaborators \<Rightarrow> 'v frame list
   \<Rightarrow> ('v, 'c, 'm) monitoring_service \<times> ('v, 'c) process
   \<Rightarrow> ('v, 'c, 'm) monitoring_service \<times> ('v, 'c) process" where
  "iterate_all env [] st = st"
| "iterate_all env (b # bs) st = iterate_all env bs (snd (iterate env b st))"

section \<open>The route\<close>

text \<open>
  The view function of \<open>POST /iterate\<close>, lines 160 to 172 of \<open>app.py\<close>. Its argument is the frame
  \<open>pandas.DataFrame.from_dict(flask.request.json)\<close>; the global \<open>monitoring_service\<close> is
  \<open>None\<close> until \<open>configure_service\<close> has run. The result is what the function
  returns, or the exception that leaves it.
\<close>

datatype response = Text_response string | Pair_response int string

definition iterate_route ::
  "('v, 'c, 'm, 'a) collaborators \<Rightarrow> 'v frame
   \<Rightarrow> ('v, 'c, 'm) monitoring_service option \<times> ('v, 'c) process
   \<Rightarrow> (error + response) \<times> ('v, 'c, 'm) monitoring_service option \<times> ('v, 'c) process" where
  "iterate_route env item st =
     (case st of (service, g) \<Rightarrow>
        (case service of
           None \<Rightarrow> (Inr (Pair_response 500 ''Internal Server Error: service not found''), None, g)
         | Some self \<Rightarrow>
             (case iterate env item (self, g) of
                (Some e, self', g') \<Rightarrow> (Inl e, Some self', g')
              | (None, self', g') \<Rightarrow> (Inr (Text_response ''ok''), Some self', g'))))"

section \<open>The rebuilt monitor\<close>

text \<open>
  \<open>Monitor\<close> of \<open>rebuild/utils.py\<close>, lines 47 to 95. \<open>config\<close> is the \<open>window_size\<close> of the loaded
  configuration; when loading failed the attribute was never set and reading it raises.
\<close>

record 'v monitor_state =
  reference_data :: "'v frame"
  current_data :: "'v frame"
  config :: "int option"

definition Monitor :: "'v frame \<Rightarrow> int option \<Rightarrow> 'v monitor_state" where
  "Monitor reference_arg loaded =
     \<lparr>reference_data = reference_arg, current_data = empty_frame (columns reference_arg),
      config = loaded\<rparr>"

definition Monitor_iterate ::
  "'v frame \<Rightarrow> 'v monitor_state \<times> string list \<Rightarrow> error option \<times> 'v monitor_state \<times> string list" where
  "Monitor_iterate new_rows_arg st =
     (case st of (self0, out) \<Rightarrow>
        let self1 = self0\<lparr>current_data := append_frame (current_data self0) new_rows_arg\<rparr>;
            current_size = shape0 (current_data self1)
        in (case config self1 of
              None \<Rightarrow> (Some AttributeError_config, self1, out)
            | Some w \<Rightarrow>
                if current_size < w
                then (None, self1,
                      out @ [''Not enough data for comparison.  Waiting for more requests...''])
                else
                  (case drop_index (current_data self1) (py_range 0 (current_size - w)) of
                     Inl e \<Rightarrow> (Some e, self1, out)
                   | Inr dropped \<Rightarrow> (None, self1\<lparr>current_data := reset_index dropped\<rparr>, out))))"

text \<open>The module-level calls of \<open>rebuild/utils.py\<close>: one call after the other.\<close>

fun Monitor_iterate_all ::
  "'v frame list \<Rightarrow> 'v monitor_state \<times> string list \<Rightarrow> 'v monitor_state \<times> string list" where
  "Monitor_iterate_all [] st = st"
| "Monitor_iterate_all (b # bs) st = Monitor_iterate_all bs (snd (Monitor_iterate b st))"

section \<open>The order of the specification\<close>

text \<open>
  The ingestion call with the evaluation path in the order section 4.2 of the specification
  words it: trim, then the engine, then the decrement of the counter. This is not the
  code; it is what the code is compared with. Everything else is as in \<open>iterate\<close>.
\<close>

definition iterate_as_specified ::
  "('v, 'c, 'm, 'a) collaborators \<Rightarrow> 'v frame
   \<Rightarrow> ('v, 'c, 'm) monitoring_service \<times> ('v, 'c) process
   \<Rightarrow> error option \<times> ('v, 'c, 'm) monitoring_service \<times> ('v, 'c) process" where
  "iterate_as_specified env new_rows_arg st =
     (case st of (self0, g) \<Rightarrow>
        let rows_count = shape0 new_rows_arg;
            self1 = self0\<lparr>current := append_frame (current self0) new_rows_arg\<rparr>;
            self2 = self1\<lparr>new_rows := new_rows self1 + rows_count\<rparr>;
            current_size = shape0 (current self2)
        in if current_size < window_size (options self2)
           then (None, self2,
                 g\<lparr>logger := logger g
                      @ [Info_not_enough_data current_size (window_size (options self2))]\<rparr>)
           else
             (case trim (current self2) (window_size (options self2)) of
                Inl e \<Rightarrow> (Some e, self2, g)
              | Inr trimmed \<Rightarrow>
                  let self3 = self2\<lparr>current := trimmed\<rparr>;
                      g1 = g\<lparr>executed := executed g
                             @ [(reference self3, current self3, column_mapping self3)]\<rparr>
                  in (case execute env (monitoring self3) (reference self3) (current self3)
                             (column_mapping self3) of
                        Inl e \<Rightarrow> (Some e, self3, g1)
                      | Inr analysis \<Rightarrow>
                          let self4 = self3\<lparr>new_rows := new_rows self3 - rows_count\<rparr>
                          in (case gauge_labels_set (hash_metric self4)
                                     [(''hash'', hash self4)] 1 of
                                Inl e \<Rightarrow> (Some e, self4, g1)
                              | Inr hm \<Rightarrow>
                                  let self5 = self4\<lparr>hash_metric := hm\<rparr>
                                  in (case publish_metrics (monitoring_metrics env analysis)
                                             (metrics self5, registry g1) of
                                        (res, ms, reg) \<Rightarrow>
                                          (res, self5\<lparr>metrics := ms\<rparr>,
                                           g1\<lparr>registry := reg\<rparr>))))))"

section \<open>Example inputs\<close>

text \<open>
  Small concrete inputs: a batch of \<open>n\<close> one-column rows holding \<open>i, i + 1, ...\<close>, a
  configuration with a given window size, an engine that yields one unlabelled metric, an
  engine whose \<open>execute\<close> raises, and an engine whose generator yields one metric and
  then raises.
\<close>

definition example_rows :: "nat \<Rightarrow> nat \<Rightarrow> int frame" where
  "example_rows i n =
     \<lparr>columns = [''x''], entries = map (\<lambda>k. (int k, [''x'' \<mapsto> int (i + k)])) [0..<n]\<rparr>"

definition example_options :: "int \<Rightarrow> bool \<Rightarrow> monitoring_service_options" where
  "example_options w u =
     \<lparr>reference_path = ''reference.csv'', min_reference_size = 30, use_reference = u,
      moving_reference = False, window_size = w, calculation_period_sec = 10,
      monitors = [''data_drift'']\<rparr>"

definition steady_engine :: "(int, unit, int, unit) collaborators" where
  "steady_engine =
     \<lparr>execute = (\<lambda>ms ref cur cm. Inr ()),
      monitoring_metrics = (\<lambda>a. ([(''data_drift:n_drifted_features'', 0, None)], None)),
      fingerprint = (\<lambda>f. map (\<lambda>e. CHR ''#'') (entries f))\<rparr>"

definition failing_engine :: "(int, unit, int, unit) collaborators" where
  "failing_engine =
     \<lparr>execute = (\<lambda>ms ref cur cm. Inl (Engine_error ''degenerate data'')),
      monitoring_metrics = (\<lambda>a. ([], None)),
      fingerprint = (\<lambda>f. map (\<lambda>e. CHR ''#'') (entries f))\<rparr>"

definition late_failing_engine :: "(int, unit, int, unit) collaborators" where
  "late_failing_engine =
     \<lparr>execute = (\<lambda>ms ref cur cm. Inr ()),
      monitoring_metrics =
        (\<lambda>a. ([(''data_drift:n_drifted_features'', 0, None)],
              Some (Engine_error ''degenerate data''))),
      fingerprint = (\<lambda>f. map (\<lambda>e. CHR ''#'') (entries f))\<rparr>"

definition fresh_process :: "(int, unit) process" where
  "fresh_process = \<lparr>registry = [], logger = [], executed = []\<rparr>"

text \<open>A service as \<open>__init__\<close> leaves it, with a given buffer.\<close>

definition example_service ::
  "int \<Rightarrow> int frame \<Rightarrow> (int, unit, int) monitoring_service \<times> (int, unit) process" where
  "example_service w cur =
     (\<lparr>monitoring = [DataDriftMonitor], reference = example_rows 100 3, current = cur,
       column_mapping = (), options = example_options w False, metrics = Map.empty,
       new_rows = 0, hash = ''###'',
       hash_metric = \<lparr>labelnames = [''hash''], samples = Map.empty\<rparr>\<rparr>,
      \<lparr>registry = [''evidently:reference_dataset_hash''], logger = [], executed = []\<rparr>)"

section \<open>Facts about frames\<close>

lemma set_py_range: "set (py_range a b) = {l. a \<le> l \<and> l < b}"
  by (auto simp: py_range_def)

lemma length_range_index: "length (range_index n) = n"
  by (simp add: range_index_def)

lemma set_range_index: "set (range_index n) = {l. 0 \<le> l \<and> l < int n}"
proof -
  have "\<And>l. 0 \<le> l \<Longrightarrow> l < int n \<Longrightarrow> l \<in> int ` {0..<n}"
  proof -
    fix l :: int
    assume "0 \<le> l" "l < int n"
    then have "nat l \<in> {0..<n}" and "l = int (nat l)" by auto
    then show "l \<in> int ` {0..<n}" by (metis imageI)
  qed
  then show ?thesis by (auto simp: range_index_def)
qed

lemma range_index_nth: "i < n \<Longrightarrow> range_index n ! i = int i"
  by (simp add: range_index_def)

lemma rows_of_append: "rows_of (append_frame f g) = rows_of f @ rows_of g"
  by (simp add: rows_of_def append_frame_def length_range_index)

lemma index_of_append:
  "index_of (append_frame f g) = range_index (length (entries f) + length (entries g))"
  by (simp add: index_of_def append_frame_def length_range_index)

lemma shape0_append: "shape0 (append_frame f g) = shape0 f + shape0 g"
  by (simp add: shape0_def append_frame_def length_range_index)

lemma length_entries_append:
  "length (entries (append_frame f g)) = length (entries f) + length (entries g)"
  by (simp add: append_frame_def length_range_index)

text \<open>
  On a frame whose index is \<open>0..n-1\<close>, filtering out the labels below \<open>k\<close> removes
  exactly the first \<open>k\<close> rows.
\<close>

lemma filter_labels_zip_range:
  assumes "length xs = n"
  shows "filter (\<lambda>(l, r). \<not> (0 \<le> l \<and> l < int k)) (zip (range_index n) xs)
         = drop k (zip (range_index n) xs)"
proof -
  let ?zs = "zip (range_index n) xs"
  have len: "length ?zs = n"
    using assms by (simp add: length_range_index)
  have nth: "\<And>i. i < n \<Longrightarrow> fst (?zs ! i) = int i"
    using assms by (simp add: length_range_index range_index_nth)
  have head: "filter (\<lambda>(l, r). \<not> (0 \<le> l \<and> l < int k)) (take k ?zs) = []"
  proof -
    have "\<And>z. z \<in> set (take k ?zs) \<Longrightarrow> 0 \<le> fst z \<and> fst z < int k"
    proof -
      fix z assume "z \<in> set (take k ?zs)"
      then obtain i where "i < length (take k ?zs)" "z = take k ?zs ! i"
        by (metis in_set_conv_nth)
      then have "i < k" "i < n" "z = ?zs ! i" using len by auto
      then show "0 \<le> fst z \<and> fst z < int k" using nth by simp
    qed
    then show ?thesis by (auto simp: filter_empty_conv)
  qed
  have tail: "filter (\<lambda>(l, r). \<not> (0 \<le> l \<and> l < int k)) (drop k ?zs) = drop k ?zs"
  proof -
    have "\<And>z. z \<in> set (drop k ?zs) \<Longrightarrow> \<not> (0 \<le> fst z \<and> fst z < int k)"
    proof -
      fix z assume "z \<in> set (drop k ?zs)"
      then obtain i where "i < length (drop k ?zs)" "z = drop k ?zs ! i"
        by (metis in_set_conv_nth)
      then have "k + i < n" "z = ?zs ! (k + i)" using len by auto
      then have "fst z = int (k + i)" using nth by simp
      then show "\<not> (0 \<le> fst z \<and> fst z < int k)" by simp
    qed
    then show ?thesis by (auto simp: filter_id_conv)
  qed
  have "filter (\<lambda>(l, r). \<not> (0 \<le> l \<and> l < int k)) (take k ?zs @ drop k ?zs) = drop k ?zs"
    unfolding filter_append head tail by simp
  then show ?thesis by simp
qed

lemma entries_zip_index:
  assumes "index_of f = range_index (length (entries f))"
  shows "entries f = zip (range_index (length (entries f))) (rows_of f)"
proof -
  have "entries f = zip (map fst (entries f)) (map snd (entries f))"
    by (simp add: zip_map_fst_snd)
  then show ?thesis
    using assms by (simp add: index_of_def rows_of_def)
qed

lemma drop_index_range:
  assumes idx: "index_of f = range_index (length (entries f))"
    and k: "0 \<le> k" "k \<le> shape0 f"
  shows "drop_index f (py_range 0 k) = Inr (f\<lparr>entries := drop (nat k) (entries f)\<rparr>)"
proof -
  let ?n = "length (entries f)"
  have present: "\<forall>l \<in> set (py_range 0 k). l \<in> set (map fst (entries f))"
    using idx k by (auto simp: set_py_range index_of_def set_range_index shape0_def)
  have pred: "(\<lambda>(l, r). l \<notin> set (py_range 0 k)) = (\<lambda>(l :: int, r :: 'a row). \<not> (0 \<le> l \<and> l < int (nat k)))"
    using k by (auto simp: set_py_range fun_eq_iff)
  have "filter (\<lambda>(l, r). l \<notin> set (py_range 0 k)) (zip (range_index ?n) (rows_of f))
        = drop (nat k) (zip (range_index ?n) (rows_of f))"
    unfolding pred by (rule filter_labels_zip_range) (simp add: rows_of_def)
  then have "filter (\<lambda>(l, r). l \<notin> set (py_range 0 k)) (entries f) = drop (nat k) (entries f)"
    using entries_zip_index [OF idx] by simp
  then show ?thesis
    using present by (simp add: drop_index_def)
qed

lemma drop_index_missing:
  assumes idx: "index_of f = range_index (length (entries f))"
    and k: "shape0 f < k"
  shows "\<exists>ls. drop_index f (py_range 0 k) = Inl (KeyError_not_found_in_axis ls)"
proof -
  have "shape0 f \<in> set (py_range 0 k)"
    using k by (simp add: set_py_range shape0_def)
  moreover have "shape0 f \<notin> set (map fst (entries f))"
    using idx by (simp add: index_of_def set_range_index shape0_def)
  ultimately have "\<not> (\<forall>l \<in> set (py_range 0 k). l \<in> set (map fst (entries f)))"
    by blast
  then show ?thesis
    by (simp add: drop_index_def)
qed

text \<open>
  The trim of a frame with a fresh index: the first \<open>n - target\<close> rows go, the others
  stay in their order; a target beyond the length removes nothing; a negative target asks
  for labels that do not exist.
\<close>

lemma trim_range:
  assumes idx: "index_of f = range_index (length (entries f))"
    and t: "0 \<le> t"
  shows "\<exists>g. trim f t = Inr g \<and> columns g = columns f
            \<and> rows_of g = drop (length (entries f) - nat t) (rows_of f)
            \<and> index_of g = range_index (length (entries g))"
proof (cases "t \<le> shape0 f")
  case True
  then have k: "0 \<le> shape0 f - t" "shape0 f - t \<le> shape0 f"
    using t by simp_all
  have n: "nat (shape0 f - t) = length (entries f) - nat t"
    using t by (simp add: shape0_def nat_diff_distrib')
  show ?thesis
    using drop_index_range [OF idx k]
    by (simp add: trim_def n reset_index_def rows_of_def index_of_def length_range_index drop_map)
next
  case False
  then have "py_range 0 (shape0 f - t) = []"
    by (simp add: py_range_def)
  moreover from False have "length (entries f) - nat t = 0"
    by (simp add: shape0_def)
  ultimately show ?thesis
    by (simp add: trim_def drop_index_def reset_index_def rows_of_def index_of_def
        length_range_index)
qed

lemma trim_negative:
  assumes idx: "index_of f = range_index (length (entries f))"
    and t: "t < 0"
  shows "\<exists>ls. trim f t = Inl (KeyError_not_found_in_axis ls)"
proof -
  from t have "shape0 f < shape0 f - t" by simp
  from drop_index_missing [OF idx this] show ?thesis
    by (auto simp: trim_def)
qed

lemma index_of_append_fresh:
  "index_of (append_frame f g) = range_index (length (entries (append_frame f g)))"
  by (simp add: index_of_append length_entries_append)

lemma length_rows_of: "length (rows_of f) = length (entries f)"
  by (simp add: rows_of_def)

lemma shape0_rows_of: "shape0 f = int (length (rows_of f))"
  by (simp add: shape0_def rows_of_def)

lemma shape0_empty_frame: "shape0 (empty_frame cols) = 0"
  by (simp add: shape0_def empty_frame_def)

lemma slice_bound_neg:
  assumes "0 < w" and "w < int n"
  shows "slice_bound n (- w) = n - nat w"
  using assms by (simp add: slice_bound_def nat_diff_distrib')

lemma trim_append:
  assumes "0 \<le> w"
  shows "\<exists>cur2. trim (append_frame f b) w = Inr cur2
           \<and> columns cur2 = columns (append_frame f b)
           \<and> rows_of cur2 = drop (length (rows_of f @ rows_of b) - nat w) (rows_of f @ rows_of b)
           \<and> index_of cur2 = range_index (length (entries cur2))"
  using trim_range [OF index_of_append_fresh assms, of f b]
  by (simp add: rows_of_append length_entries_append length_rows_of)

lemma trim_append_nonneg:
  assumes "trim (append_frame f b) w = Inr cur2"
  shows "0 \<le> w"
proof (rule ccontr)
  assume "\<not> 0 \<le> w"
  then have "w < 0" by simp
  from trim_negative [OF index_of_append_fresh this, of f b] assms show False
    by auto
qed

lemma trim_append_rows:
  assumes "trim (append_frame f b) w = Inr cur2"
  shows "rows_of cur2 = drop (length (rows_of f @ rows_of b) - nat w) (rows_of f @ rows_of b)"
  using trim_append [OF trim_append_nonneg [OF assms], of f b] assms by auto

lemma trim_append_shape0:
  assumes "trim (append_frame f b) w = Inr cur2" and "w \<le> shape0 f + shape0 b"
  shows "shape0 cur2 = w"
proof -
  have w: "0 \<le> w" by (rule trim_append_nonneg [OF assms(1)])
  have "nat w \<le> length (rows_of f @ rows_of b)"
    using assms(2) w by (simp add: shape0_rows_of)
  then have "length (rows_of cur2) = nat w"
    by (simp add: trim_append_rows [OF assms(1)])
  then show ?thesis using w by (simp add: shape0_rows_of)
qed

lemma trim_append_drop:
  assumes "0 \<le> t" "t \<le> shape0 f + shape0 b"
  shows "\<exists>f'. trim (append_frame f b) t = Inr f'
         \<and> rows_of f' = drop (nat (shape0 f + shape0 b - t)) (rows_of f @ rows_of b)"
proof -
  have "length (rows_of f @ rows_of b) - nat t = nat (shape0 f + shape0 b - t)"
    using assms by (simp add: shape0_rows_of nat_diff_distrib')
  then show ?thesis using trim_append [OF assms(1), of f b] by auto
qed

section \<open>The ingestion call, path by path\<close>

lemma iterate_unfold:
  "iterate env b (self, g) =
     (let cur1 = append_frame (current self) b;
          w = window_size (options self)
      in if shape0 cur1 < w
         then (None, self\<lparr>current := cur1, new_rows := new_rows self + shape0 b\<rparr>,
               g\<lparr>logger := logger g @ [Info_not_enough_data (shape0 cur1) w]\<rparr>)
         else
           (case trim cur1 w of
              Inl e \<Rightarrow> (Some e, self\<lparr>current := cur1, new_rows := new_rows self + shape0 b\<rparr>, g)
            | Inr cur2 \<Rightarrow>
                let g1 = g\<lparr>executed := executed g @ [(reference self, cur2, column_mapping self)]\<rparr>
                in (case execute env (monitoring self) (reference self) cur2 (column_mapping self) of
                      Inl e \<Rightarrow> (Some e, self\<lparr>current := cur2\<rparr>, g1)
                    | Inr analysis \<Rightarrow>
                        (case gauge_labels_set (hash_metric self) [(''hash'', hash self)] 1 of
                           Inl e \<Rightarrow> (Some e, self\<lparr>current := cur2\<rparr>, g1)
                         | Inr hm \<Rightarrow>
                             (case publish_metrics (monitoring_metrics env analysis)
                                     (metrics self, registry g) of
                                (res, ms, reg) \<Rightarrow>
                                  (res, self\<lparr>current := cur2, hash_metric := hm, metrics := ms\<rparr>,
                                   g1\<lparr>registry := reg\<rparr>))))))"
  by (simp add: iterate_def trim_def Let_def split: sum.splits prod.splits)

lemma iterate_skip:
  assumes "shape0 (current self) + shape0 b < window_size (options self)"
  shows "iterate env b (self, g) =
           (None, self\<lparr>current := append_frame (current self) b,
                        new_rows := new_rows self + shape0 b\<rparr>,
            g\<lparr>logger := logger g
                 @ [Info_not_enough_data (shape0 (current self) + shape0 b)
                      (window_size (options self))]\<rparr>)"
  using assms by (simp add: iterate_unfold shape0_append Let_def)

lemma iterate_key_error:
  assumes "window_size (options self) < 0"
  shows "\<exists>ls. iterate env b (self, g) =
           (Some (KeyError_not_found_in_axis ls),
            self\<lparr>current := append_frame (current self) b,
                  new_rows := new_rows self + shape0 b\<rparr>, g)"
proof -
  obtain ls where "trim (append_frame (current self) b) (window_size (options self))
                   = Inl (KeyError_not_found_in_axis ls)"
    using trim_negative [OF index_of_append_fresh assms] by blast
  moreover have "\<not> shape0 (append_frame (current self) b) < window_size (options self)"
    using assms by (simp add: shape0_def)
  ultimately show ?thesis
    by (simp add: iterate_unfold Let_def)
qed

lemma iterate_trimmed:
  assumes "window_size (options self) \<le> shape0 (current self) + shape0 b"
    and "trim (append_frame (current self) b) (window_size (options self)) = Inr cur2"
  shows "iterate env b (self, g) =
           (let g1 = g\<lparr>executed := executed g @ [(reference self, cur2, column_mapping self)]\<rparr>
            in (case execute env (monitoring self) (reference self) cur2 (column_mapping self) of
                  Inl e \<Rightarrow> (Some e, self\<lparr>current := cur2\<rparr>, g1)
                | Inr analysis \<Rightarrow>
                    (case gauge_labels_set (hash_metric self) [(''hash'', hash self)] 1 of
                       Inl e \<Rightarrow> (Some e, self\<lparr>current := cur2\<rparr>, g1)
                     | Inr hm \<Rightarrow>
                         (case publish_metrics (monitoring_metrics env analysis)
                                 (metrics self, registry g) of
                            (res, ms, reg) \<Rightarrow>
                              (res, self\<lparr>current := cur2, hash_metric := hm, metrics := ms\<rparr>,
                               g1\<lparr>registry := reg\<rparr>)))))"
  using assms by (simp add: iterate_unfold shape0_append Let_def)

text \<open>What every evaluation leaves, whatever the engine and the gauges do.\<close>

lemma iterate_evaluated:
  assumes "window_size (options self) \<le> shape0 (current self) + shape0 b"
    and "trim (append_frame (current self) b) (window_size (options self)) = Inr cur2"
    and "iterate env b (self, g) = (res, self', g')"
  shows "current self' = cur2 \<and> new_rows self' = new_rows self
         \<and> reference self' = reference self \<and> options self' = options self
         \<and> column_mapping self' = column_mapping self \<and> monitoring self' = monitoring self
         \<and> hash self' = hash self \<and> logger g' = logger g
         \<and> executed g' = executed g @ [(reference self, cur2, column_mapping self)]"
  using assms(3) unfolding iterate_trimmed [OF assms(1,2)]
  by (auto simp: Let_def split: sum.splits prod.splits)

lemma iterate_evaluates:
  assumes "0 \<le> window_size (options self)"
    and "window_size (options self) \<le> shape0 (current self) + shape0 b"
  shows "\<exists>res self' g'. iterate env b (self, g) = (res, self', g')
           \<and> executed g' = executed g @ [(reference self, current self', column_mapping self)]
           \<and> shape0 (current self') = window_size (options self)
           \<and> new_rows self' = new_rows self \<and> options self' = options self"
proof -
  obtain cur2 where t: "trim (append_frame (current self) b) (window_size (options self)) = Inr cur2"
    using trim_append [OF assms(1)] by blast
  obtain res self' g' where r: "iterate env b (self, g) = (res, self', g')"
    by (cases "iterate env b (self, g)") auto
  from iterate_evaluated [OF assms(2) t r] trim_append_shape0 [OF t assms(2)] r
  show ?thesis by simp
qed

lemma iterate_engine_failure:
  assumes "window_size (options self) \<le> shape0 (current self) + shape0 b"
    and "trim (append_frame (current self) b) (window_size (options self)) = Inr cur2"
    and "execute env (monitoring self) (reference self) cur2 (column_mapping self) = Inl e"
  shows "iterate env b (self, g) =
           (Some e, self\<lparr>current := cur2\<rparr>,
            g\<lparr>executed := executed g @ [(reference self, cur2, column_mapping self)]\<rparr>)"
  using assms(3) by (simp add: iterate_trimmed [OF assms(1,2)] Let_def)

lemma iterate_window_rows:
  assumes w: "0 \<le> window_size (options self)"
          "window_size (options self) \<le> shape0 (current self) + shape0 b"
  shows "rows_of (current (fst (snd (iterate env b (self, g)))))
        = drop (nat (shape0 (current self) + shape0 b - window_size (options self)))
            (rows_of (current self) @ rows_of b)"
proof -
  obtain cur2 where t: "trim (append_frame (current self) b) (window_size (options self)) = Inr cur2"
    and rows: "rows_of cur2 = drop (nat (shape0 (current self) + shape0 b
                  - window_size (options self))) (rows_of (current self) @ rows_of b)"
    using trim_append_drop [OF w] by blast
  obtain res self' g' where r: "iterate env b (self, g) = (res, self', g')"
    by (cases "iterate env b (self, g)") auto
  from iterate_evaluated [OF w(2) t r] rows show ?thesis by (simp add: r)
qed

lemma iterate_executed_cases:
  assumes "iterate env b (self, g) = (res, self', g')"
  shows "(executed g' = executed g \<and> new_rows self' = new_rows self + shape0 b)
       \<or> (executed g' = executed g @ [(reference self, current self', column_mapping self)]
          \<and> shape0 (current self') = window_size (options self)
          \<and> new_rows self' = new_rows self
          \<and> 0 \<le> window_size (options self)
          \<and> window_size (options self) \<le> shape0 (current self) + shape0 b)"
proof (cases "shape0 (current self) + shape0 b < window_size (options self)")
  case True
  from assms show ?thesis unfolding iterate_skip [OF True] by auto
next
  case False
  then have le: "window_size (options self) \<le> shape0 (current self) + shape0 b" by simp
  show ?thesis
  proof (cases "0 \<le> window_size (options self)")
    case w: True
    obtain cur2 where t: "trim (append_frame (current self) b) (window_size (options self)) = Inr cur2"
      using trim_append [OF w] by blast
    from iterate_evaluated [OF le t assms] trim_append_shape0 [OF t le] w le
    show ?thesis by simp
  next
    case False
    then have "window_size (options self) < 0" by simp
    from iterate_key_error [OF this, of env b g] assms show ?thesis by auto
  qed
qed

lemma iterate_frame_fields:
  assumes "iterate env b (self, g) = (res, self', g')"
  shows "options self' = options self \<and> reference self' = reference self
         \<and> column_mapping self' = column_mapping self \<and> monitoring self' = monitoring self
         \<and> hash self' = hash self"
  using assms
  by (auto simp: iterate_unfold Let_def split: if_splits sum.splits prod.splits)

lemma iterate_options: "options (fst (snd (iterate env b st))) = options (fst st)"
proof -
  obtain self g where st: "st = (self, g)" by (cases st)
  obtain res self' g' where r: "iterate env b (self, g) = (res, self', g')"
    by (cases "iterate env b (self, g)") auto
  from iterate_frame_fields [OF r] show ?thesis by (simp add: st r)
qed

lemma iterate_all_options: "options (fst (iterate_all env bs st)) = options (fst st)"
  by (induction bs arbitrary: st) (simp_all add: iterate_options)

lemma iterate_new_rows_mono:
  "new_rows (fst st) \<le> new_rows (fst (snd (iterate env b st)))"
proof -
  obtain self g where st: "st = (self, g)" by (cases st)
  obtain res self' g' where r: "iterate env b (self, g) = (res, self', g')"
    by (cases "iterate env b (self, g)") auto
  have "0 \<le> shape0 b" by (simp add: shape0_def)
  with iterate_executed_cases [OF r] show ?thesis
    by (auto simp: st r)
qed

lemma iterate_all_new_rows_mono:
  "new_rows (fst st) \<le> new_rows (fst (iterate_all env bs st))"
proof (induction bs arbitrary: st)
  case Nil
  show ?case by simp
next
  case (Cons b bs)
  have "new_rows (fst st) \<le> new_rows (fst (snd (iterate env b st)))"
    by (rule iterate_new_rows_mono)
  also have "\<dots> \<le> new_rows (fst (iterate_all env bs (snd (iterate env b st))))"
    by (rule Cons.IH)
  finally show ?case by simp
qed

section \<open>Construction\<close>

lemma MonitoringService_fields:
  assumes "MonitoringService env ref opts cm g0 = Inr (self, g)"
  shows "options self = opts \<and> new_rows self = 0 \<and> metrics self = Map.empty
         \<and> column_mapping self = cm \<and> hash self = fingerprint env (reference self)
         \<and> hash_metric self = \<lparr>labelnames = [''hash''], samples = Map.empty\<rparr>
         \<and> registry g = registry g0 @ [''evidently:reference_dataset_hash'']
         \<and> logger g = logger g0 \<and> executed g = executed g0"
  using assms
  by (auto simp: MonitoringService_def Gauge_def Let_def split: sum.splits if_splits)

text \<open>
  What \<open>__init__\<close> leaves for a window size between 1 and the number of rows of the
  dataset, and without seeding. With \<open>use_reference\<close>, the reference is the dataset
  without its last \<open>window_size\<close> rows, the buffer holds exactly those last rows, labels
  and order kept, and the fingerprint is taken of that reference. Without it, the reference
  is the dataset itself and the buffer has its columns and, unless the dataset has rows
  but no column at all, no row.
\<close>

lemma MonitoringService_seeding:
  assumes "MonitoringService env ref opts cm proc = Inr (self, g)"
  shows "(use_reference opts \<and> 0 < window_size opts \<and> window_size opts < shape0 ref \<longrightarrow>
            entries (reference self)
              = take (length (entries ref) - nat (window_size opts)) (entries ref)
            \<and> entries (current self)
              = drop (length (entries ref) - nat (window_size opts)) (entries ref)
            \<and> shape0 (reference self) = shape0 ref - window_size opts
            \<and> shape0 (current self) = window_size opts
            \<and> columns (reference self) = columns ref \<and> columns (current self) = columns ref
            \<and> hash self = fingerprint env (reference self))
       \<and> (\<not> use_reference opts \<longrightarrow>
            reference self = ref \<and> columns (current self) = columns ref
            \<and> (columns ref \<noteq> [] \<longrightarrow> entries (current self) = [])
            \<and> hash self = fingerprint env ref)"
proof -
  have seeded: "slice_bound (length (entries ref)) (- window_size opts)
                = length (entries ref) - nat (window_size opts)"
    if "0 < window_size opts" "window_size opts < shape0 ref"
    using that by (intro slice_bound_neg) (simp_all add: shape0_def)
  have blank: "filter (\<lambda>(l, r). \<forall>c \<in> set (columns ref). r c \<noteq> None)
                 (map (\<lambda>(l, r). (l, Map.empty)) (entries ref)) = []"
    if "columns ref \<noteq> []"
  proof -
    from that obtain c where "c \<in> set (columns ref)" by (cases "columns ref") auto
    then show ?thesis by (auto simp: filter_empty_conv)
  qed
  show ?thesis
    using assms seeded blank
    by (auto simp: MonitoringService_def Gauge_def Let_def iloc_upto_def iloc_from_def
        dropna_def reindex_like_def shape0_def split: sum.splits if_splits)
qed

section \<open>The publishing loop, round by round\<close>

lemma publish_unfold:
  "publish (name, v, lbls) (ms, reg) =
     (let key = ''evidently:'' @ name;
          put = (\<lambda>g. case lbls of None \<Rightarrow> gauge_set g v | Some kw \<Rightarrow> gauge_labels_set g kw v)
      in case ms key of
           None \<Rightarrow>
             if key \<in> set reg then (Some (ValueError_duplicated_timeseries key), ms, reg)
             else
               (let g = \<lparr>labelnames = (case lbls of None \<Rightarrow> [] | Some kw \<Rightarrow> sort (map fst kw)),
                        samples = Map.empty\<rparr>
                in case put g of
                     Inl e \<Rightarrow> (Some e, ms(key \<mapsto> g), reg @ [key])
                   | Inr g' \<Rightarrow> (None, ms(key \<mapsto> g'), reg @ [key]))
         | Some g0 \<Rightarrow>
             (case put g0 of
                Inl e \<Rightarrow> (Some e, ms, reg)
              | Inr g' \<Rightarrow> (None, ms(key \<mapsto> g'), reg)))"
  by (simp add: publish_def Gauge_def Let_def split: option.splits sum.splits)

lemma gauge_set_Inr:
  "(gauge_set g v = Inr g')
   = (labelnames g = [] \<and> g' = g\<lparr>samples := (samples g)([] \<mapsto> v)\<rparr>)"
  by (auto simp: gauge_set_def)

lemma gauge_labels_set_Inr:
  "(gauge_labels_set g kw v = Inr g')
   = (labelnames g \<noteq> [] \<and> sort (map fst kw) = sort (labelnames g)
      \<and> g' = g\<lparr>samples := (samples g)(labelvalues (labelnames g) kw \<mapsto> v)\<rparr>)"
  by (auto simp: gauge_labels_set_def)

text \<open>
  One round of the loop: the dictionary only grows, a gauge is constructed exactly for the
  key that is new to the dictionary, and the label names of the gauges already there stay.
\<close>

lemma publish_step:
  assumes "publish t (ms, reg) = (res, ms', reg')"
  shows "dom ms \<subseteq> dom ms'
       \<and> (\<forall>k. count_list reg' k = count_list reg k + (if k \<in> dom ms' - dom ms then 1 else 0))
       \<and> (\<forall>k g0. ms k = Some g0 \<longrightarrow> (\<exists>g'. ms' k = Some g' \<and> labelnames g' = labelnames g0))"
proof -
  obtain name v lbls where t: "t = (name, v, lbls)" by (cases t)
  show ?thesis
    using assms unfolding t publish_unfold
    by (auto simp: Let_def gauge_set_Inr gauge_labels_set_Inr
        split: option.splits sum.splits if_splits)
qed

lemma publish_all_steps:
  assumes "publish_all ts (ms, reg) = (res, ms', reg')"
  shows "dom ms \<subseteq> dom ms'
       \<and> (\<forall>k. count_list reg' k = count_list reg k + (if k \<in> dom ms' - dom ms then 1 else 0))
       \<and> (\<forall>k g0. ms k = Some g0 \<longrightarrow> (\<exists>g'. ms' k = Some g' \<and> labelnames g' = labelnames g0))"
  using assms
proof (induction ts arbitrary: ms reg)
  case Nil
  then show ?case by simp
next
  case (Cons t ts)
  obtain r1 ms1 reg1 where p: "publish t (ms, reg) = (r1, ms1, reg1)"
    by (cases "publish t (ms, reg)") auto
  note one = publish_step [OF p]
  show ?case
  proof (cases r1)
    case (Some e)
    with Cons.prems p have "ms' = ms1" "reg' = reg1" by simp_all
    with one show ?thesis by simp
  next
    case None
    with Cons.prems p have rest: "publish_all ts (ms1, reg1) = (res, ms', reg')" by simp
    note more = Cons.IH [OF rest]
    have d: "dom ms \<subseteq> dom ms'" using one more by blast
    have c: "count_list reg' k = count_list reg k + (if k \<in> dom ms' - dom ms then 1 else 0)" for k
    proof -
      have "count_list reg' k = count_list reg1 k + (if k \<in> dom ms' - dom ms1 then 1 else 0)"
        using more by blast
      moreover have "count_list reg1 k = count_list reg k + (if k \<in> dom ms1 - dom ms then 1 else 0)"
        using one by blast
      moreover have "dom ms \<subseteq> dom ms1" "dom ms1 \<subseteq> dom ms'" using one more by blast+
      ultimately show ?thesis by auto
    qed
    have l: "\<exists>g'. ms' k = Some g' \<and> labelnames g' = labelnames g0" if "ms k = Some g0" for k g0
    proof -
      from one that obtain g1 where "ms1 k = Some g1" "labelnames g1 = labelnames g0" by blast
      moreover from more this(1) obtain g' where "ms' k = Some g'" "labelnames g' = labelnames g1"
        by blast
      ultimately show ?thesis by simp
    qed
    from d c l show ?thesis by blast
  qed
qed

lemma publish_metrics_steps:
  assumes "publish_metrics gen (ms, reg) = (res, ms', reg')"
  shows "dom ms \<subseteq> dom ms'
       \<and> (\<forall>k. count_list reg' k = count_list reg k + (if k \<in> dom ms' - dom ms then 1 else 0))
       \<and> (\<forall>k g0. ms k = Some g0 \<longrightarrow> (\<exists>g'. ms' k = Some g' \<and> labelnames g' = labelnames g0))"
proof -
  obtain yielded ending where gen: "gen = (yielded, ending)" by (cases gen)
  obtain r where "publish_all yielded (ms, reg) = (r, ms', reg')"
    using assms unfolding gen publish_metrics_def
    by (auto split: prod.splits option.splits)
  then show ?thesis by (rule publish_all_steps)
qed

text \<open>
  What the loop over the generator leaves: the exception of the first round that raises;
  else the exception the generator ends with, all its triples published.
\<close>

lemma publish_metrics_ending:
  assumes "publish_all yielded st = (None, st')"
  shows "publish_metrics (yielded, ending) st = (ending, st')"
  using assms by (simp add: publish_metrics_def)

text \<open>
  A failure of the generator: the fingerprint gauge is set and every yielded triple is
  published before the exception leaves the call.
\<close>

lemma iterate_metrics_failure:
  assumes "window_size (options self) \<le> shape0 (current self) + shape0 b"
    and "trim (append_frame (current self) b) (window_size (options self)) = Inr cur2"
    and "execute env (monitoring self) (reference self) cur2 (column_mapping self) = Inr a"
    and "labelnames (hash_metric self) = [''hash'']"
    and "monitoring_metrics env a = (yielded, Some e)"
    and "publish_all yielded (metrics self, registry g) = (None, ms, reg)"
  shows "iterate env b (self, g) =
           (Some e,
            self\<lparr>current := cur2,
                  hash_metric := (hash_metric self)
                     \<lparr>samples := (samples (hash_metric self))([hash self] \<mapsto> 1)\<rparr>,
                  metrics := ms\<rparr>,
            g\<lparr>executed := executed g @ [(reference self, cur2, column_mapping self)],
               registry := reg\<rparr>)"
  using assms(3-6)
  by (simp add: iterate_trimmed [OF assms(1,2)] Let_def gauge_labels_set_def labelvalues_def
      publish_metrics_ending)

lemma iterate_metrics_steps:
  assumes "iterate env b (self, g) = (res, self', g')"
  shows "dom (metrics self) \<subseteq> dom (metrics self')
       \<and> (\<forall>k. count_list (registry g') k
               = count_list (registry g) k
                 + (if k \<in> dom (metrics self') - dom (metrics self) then 1 else 0))
       \<and> (\<forall>k g0. metrics self k = Some g0 \<longrightarrow>
               (\<exists>g1. metrics self' k = Some g1 \<and> labelnames g1 = labelnames g0))"
proof -
  have same: ?thesis if "metrics self' = metrics self" "registry g' = registry g"
    using that by simp
  show ?thesis
  proof (cases "shape0 (append_frame (current self) b) < window_size (options self)")
    case True
    with assms show ?thesis
      by (intro same) (auto simp: iterate_unfold Let_def)
  next
    case False
    show ?thesis
    proof (cases "trim (append_frame (current self) b) (window_size (options self))")
      case (Inl e)
      with assms False show ?thesis
        by (intro same) (auto simp: iterate_unfold Let_def)
    next
      case (Inr cur2)
      show ?thesis
      proof (cases "execute env (monitoring self) (reference self) cur2 (column_mapping self)")
        case (Inl e)
        with assms False \<open>trim _ _ = Inr cur2\<close> show ?thesis
          by (intro same) (auto simp: iterate_unfold Let_def)
      next
        case results: (Inr analysis)
        show ?thesis
        proof (cases "gauge_labels_set (hash_metric self) [(''hash'', hash self)] 1")
          case (Inl e)
          with assms False \<open>trim _ _ = Inr cur2\<close> results show ?thesis
            by (intro same) (auto simp: iterate_unfold Let_def)
        next
          case (Inr hm)
          obtain r ms reg where p: "publish_metrics (monitoring_metrics env analysis)
                                      (metrics self, registry g) = (r, ms, reg)"
            by (cases "publish_metrics (monitoring_metrics env analysis)
                         (metrics self, registry g)") auto
          with assms False \<open>trim _ _ = Inr cur2\<close> results Inr
          have "metrics self' = ms" "registry g' = reg"
            by (auto simp: iterate_unfold Let_def)
          with publish_metrics_steps [OF p] show ?thesis by simp
        qed
      qed
    qed
  qed
qed

lemma iterate_all_metrics_steps:
  assumes "iterate_all env bs (self, g) = (self', g')"
  shows "dom (metrics self) \<subseteq> dom (metrics self')
       \<and> (\<forall>k. count_list (registry g') k
               = count_list (registry g) k
                 + (if k \<in> dom (metrics self') - dom (metrics self) then 1 else 0))
       \<and> (\<forall>k g0. metrics self k = Some g0 \<longrightarrow>
               (\<exists>g1. metrics self' k = Some g1 \<and> labelnames g1 = labelnames g0))"
  using assms
proof (induction bs arbitrary: self g)
  case Nil
  then show ?case by simp
next
  case (Cons b bs)
  obtain r1 self1 g1 where i: "iterate env b (self, g) = (r1, self1, g1)"
    by (cases "iterate env b (self, g)") auto
  with Cons.prems have rest: "iterate_all env bs (self1, g1) = (self', g')" by simp
  note one = iterate_metrics_steps [OF i]
  note more = Cons.IH [OF rest]
  have d: "dom (metrics self) \<subseteq> dom (metrics self')" using one more by blast
  have c: "count_list (registry g') k = count_list (registry g) k
            + (if k \<in> dom (metrics self') - dom (metrics self) then 1 else 0)" for k
  proof -
    have "count_list (registry g') k = count_list (registry g1) k
            + (if k \<in> dom (metrics self') - dom (metrics self1) then 1 else 0)"
      using more by blast
    moreover have "count_list (registry g1) k = count_list (registry g) k
            + (if k \<in> dom (metrics self1) - dom (metrics self) then 1 else 0)"
      using one by blast
    moreover have "dom (metrics self) \<subseteq> dom (metrics self1)"
        "dom (metrics self1) \<subseteq> dom (metrics self')"
      using one more by blast+
    ultimately show ?thesis by auto
  qed
  have l: "\<exists>g2. metrics self' k = Some g2 \<and> labelnames g2 = labelnames g0"
    if "metrics self k = Some g0" for k g0
  proof -
    from one that obtain ga where "metrics self1 k = Some ga" "labelnames ga = labelnames g0"
      by blast
    moreover from more this(1) obtain g2 where "metrics self' k = Some g2"
        "labelnames g2 = labelnames ga"
      by blast
    ultimately show ?thesis by simp
  qed
  from d c l show ?case by blast
qed

section \<open>The rebuilt monitor, call by call\<close>

lemma Monitor_iterate_unfold:
  "Monitor_iterate b (self, out) =
     (let cur1 = append_frame (current_data self) b in
      case config self of
        None \<Rightarrow> (Some AttributeError_config, self\<lparr>current_data := cur1\<rparr>, out)
      | Some w \<Rightarrow>
          if shape0 cur1 < w
          then (None, self\<lparr>current_data := cur1\<rparr>,
                out @ [''Not enough data for comparison.  Waiting for more requests...''])
          else (case trim cur1 w of
                  Inl e \<Rightarrow> (Some e, self\<lparr>current_data := cur1\<rparr>, out)
                | Inr cur2 \<Rightarrow> (None, self\<lparr>current_data := cur2\<rparr>, out)))"
  by (simp add: Monitor_iterate_def trim_def Let_def split: sum.splits option.splits)

lemma Monitor_iterate_config:
  "config (fst (snd (Monitor_iterate b st))) = config (fst st)"
  by (cases st) (simp add: Monitor_iterate_unfold Let_def split: sum.splits option.splits)

lemma Monitor_iterate_all_config:
  "config (fst (Monitor_iterate_all bs st)) = config (fst st)"
  by (induction bs arbitrary: st) (simp_all add: Monitor_iterate_config)

lemma Monitor_iterate_trimmed:
  assumes "config self = Some w" and "w \<le> shape0 (current_data self) + shape0 b"
    and "Monitor_iterate b (self, out) = (None, self', out')"
  shows "shape0 (current_data self') = w"
proof (cases "trim (append_frame (current_data self) b) w")
  case (Inl e)
  with assms show ?thesis
    by (simp add: Monitor_iterate_unfold shape0_append Let_def)
next
  case (Inr cur2)
  from trim_append_shape0 [OF Inr assms(2)] assms Inr show ?thesis
    by (auto simp: Monitor_iterate_unfold shape0_append Let_def)
qed

lemma Monitor_iterate_ok:
  assumes "config self = Some w" and "0 \<le> w" and "w \<le> shape0 (current_data self) + shape0 b"
  shows "\<exists>cur2. Monitor_iterate b (self, out) = (None, self\<lparr>current_data := cur2\<rparr>, out)
           \<and> shape0 cur2 = w"
proof -
  obtain cur2 where t: "trim (append_frame (current_data self) b) w = Inr cur2"
    using trim_append [OF assms(2)] by blast
  from trim_append_shape0 [OF t assms(3)] t assms show ?thesis
    by (intro exI [of _ cur2]) (simp add: Monitor_iterate_unfold shape0_append Let_def)
qed

section \<open>The example inputs, evaluated\<close>

lemma shape0_example_rows: "shape0 (example_rows i n) = int n"
  by (simp add: shape0_def example_rows_def)

lemma rows_of_example_rows:
  "rows_of (example_rows i n) = map (\<lambda>k. [''x'' \<mapsto> int (i + k)]) [0..<n]"
  by (simp add: rows_of_def example_rows_def comp_def)

lemma shape0_example_service:
  "shape0 (current (fst (example_service w cur))) = shape0 cur"
  "window_size (options (fst (example_service w cur))) = w"
  by (simp_all add: example_service_def example_options_def)

lemma example_fresh:
  "MonitoringService steady_engine (example_rows 100 3) (example_options w False) () fresh_process
   = Inr (example_service w (empty_frame [''x'']))"
  by (simp add: MonitoringService_def example_options_def monitor_mapping_def Gauge_def
      fresh_process_def example_service_def steady_engine_def example_rows_def
      dropna_def reindex_like_def empty_frame_def Let_def numeral_3_eq_3)

lemma example_trim:
  "trim (append_frame (example_rows 0 2) (example_rows 2 1)) 2
   = Inr \<lparr>columns = [''x''], entries = [(0, [''x'' \<mapsto> 1]), (1, [''x'' \<mapsto> 2])]\<rparr>"
  by (simp add: trim_def drop_index_def py_range_def append_frame_def example_rows_def
      range_index_def reset_index_def shape0_def upt_rec upto.simps)

lemma example_first_trim:
  "trim (append_frame (empty_frame [''x'']) (example_rows 0 2)) 2
   = Inr \<lparr>columns = [''x''], entries = [(0, [''x'' \<mapsto> 0]), (1, [''x'' \<mapsto> 1])]\<rparr>"
  by (simp add: trim_def drop_index_def py_range_def append_frame_def example_rows_def
      range_index_def reset_index_def shape0_def empty_frame_def upt_rec upto.simps)

lemma example_service_ready:
  "window_size (options (fst (example_service 2 (example_rows 0 2))))
     \<le> shape0 (current (fst (example_service 2 (example_rows 0 2)))) + shape0 (example_rows 2 1)"
  "trim (append_frame (current (fst (example_service 2 (example_rows 0 2)))) (example_rows 2 1))
     (window_size (options (fst (example_service 2 (example_rows 0 2)))))
   = Inr \<lparr>columns = [''x''], entries = [(0, [''x'' \<mapsto> 1]), (1, [''x'' \<mapsto> 2])]\<rparr>"
  using example_trim
  by (simp_all add: example_service_def example_options_def shape0_example_rows)

lemma example_failing_execute:
  "execute failing_engine ms ref cur cm = Inl (Engine_error ''degenerate data'')"
  by (simp add: failing_engine_def)

lemma example_late_execute:
  "execute late_failing_engine ms ref cur cm = Inr ()"
  by (simp add: late_failing_engine_def)

lemma example_late_metrics:
  "monitoring_metrics late_failing_engine ()
   = ([(''data_drift:n_drifted_features'', 0, None)], Some (Engine_error ''degenerate data''))"
  by (simp add: late_failing_engine_def)

lemma example_hash_labelnames:
  "labelnames (hash_metric (fst (example_service w cur))) = [''hash'']"
  by (simp add: example_service_def)

lemma example_late_publish:
  "publish_all [(''data_drift:n_drifted_features'', 0 :: int, None)]
     (metrics (fst (example_service w cur)), registry (snd (example_service w cur)))
   = (None,
      [''evidently:data_drift:n_drifted_features''
         \<mapsto> \<lparr>labelnames = [], samples = [[] \<mapsto> 0]\<rparr>],
      [''evidently:reference_dataset_hash'', ''evidently:data_drift:n_drifted_features''])"
  by (simp add: example_service_def publish_unfold gauge_set_def Let_def)

lemma example_warm_up:
  "iterate steady_engine (example_rows 0 1) (example_service 2 (empty_frame [''x'']))
   = (None,
      fst (example_service 2 (empty_frame [''x'']))
        \<lparr>current := append_frame (empty_frame [''x'']) (example_rows 0 1), new_rows := 1\<rparr>,
      snd (example_service 2 (empty_frame [''x'']))\<lparr>logger := [Info_not_enough_data 1 2]\<rparr>)"
  using iterate_skip [of "fst (example_service 2 (empty_frame [''x'']))" "example_rows 0 1"
          steady_engine "snd (example_service 2 (empty_frame [''x'']))"]
  by (simp add: example_service_def example_options_def shape0_example_rows
      shape0_empty_frame)

lemma example_sort: "sort [''feature'', ''dataset''] = [''dataset'', ''feature'']"
  by code_simp

lemma example_first_evaluation:
  "metrics (fst (snd (iterate steady_engine (example_rows 0 2)
                        (example_service 2 (empty_frame [''x''])))))
     ''evidently:data_drift:n_drifted_features''
   = Some \<lparr>labelnames = [], samples = [[] \<mapsto> 0]\<rparr>"
proof -
  let ?st = "example_service 2 (empty_frame [''x''])"
  have le: "window_size (options (fst ?st)) \<le> shape0 (current (fst ?st)) + shape0 (example_rows 0 2)"
    by (simp add: shape0_example_service shape0_example_rows shape0_empty_frame)
  have t: "trim (append_frame (current (fst ?st)) (example_rows 0 2)) (window_size (options (fst ?st)))
           = Inr \<lparr>columns = [''x''], entries = [(0, [''x'' \<mapsto> 0]), (1, [''x'' \<mapsto> 1])]\<rparr>"
    using example_first_trim by (simp add: example_service_def example_options_def)
  show ?thesis
    using iterate_trimmed [OF le t, of steady_engine "snd ?st"]
    by (simp add: example_service_def steady_engine_def gauge_labels_set_def publish_unfold
        publish_metrics_def gauge_set_def Let_def)
qed

text \<open>
  The example of the specification: 100 rows and \<open>window_size = 30\<close>. The reference
  holds the rows 0 to 69, the buffer the rows 70 to 99, and the fingerprint is taken of the
  reference.
\<close>

lemma seeding_example:
  "(case MonitoringService steady_engine (example_rows 0 100) (example_options 30 True) ()
           fresh_process of
      Inl e \<Rightarrow> False
    | Inr (self, g) \<Rightarrow>
        rows_of (reference self) = map (\<lambda>k. [''x'' \<mapsto> int k]) [0..<70]
        \<and> rows_of (current self) = map (\<lambda>k. [''x'' \<mapsto> int k]) [70..<100]
        \<and> hash self = fingerprint steady_engine (reference self))"
proof -
  obtain self g where m: "MonitoringService steady_engine (example_rows 0 100)
                            (example_options 30 True) () fresh_process = Inr (self, g)"
    by (simp add: MonitoringService_def example_options_def monitor_mapping_def Gauge_def
        fresh_process_def Let_def)
  have n: "length (entries (example_rows 0 100)) = 100" "shape0 (example_rows 0 100) = 100"
    by (simp_all add: example_rows_def shape0_def)
  from MonitoringService_seeding [OF m] n
  have e: "entries (reference self) = take 70 (entries (example_rows 0 100))"
      "entries (current self) = drop 70 (entries (example_rows 0 100))"
    and h: "hash self = fingerprint steady_engine (reference self)"
    by (simp_all add: example_options_def)
  have r: "rows_of (reference self) = map (\<lambda>k. [''x'' \<mapsto> int k]) [0..<70]"
      "rows_of (current self) = map (\<lambda>k. [''x'' \<mapsto> int k]) [70..<100]"
    unfolding rows_of_def e
    by (simp_all add: example_rows_def take_map drop_map comp_def del: upt_Suc)
  from r h show ?thesis
    by (simp add: m)
qed

section \<open>The gate\<close>

text \<open>
  Claim C1. Take any ingestion call \<open>iterate(new_rows)\<close> and let the size be the number
  of rows in the buffer once the batch is appended. If the size is below \<open>window_size\<close>,
  the call returns without invoking the engine, the notice with the current and the required
  size is added to the log, the buffer holds the old rows followed by the batch, and the
  counter of pending rows keeps the value the append gave it (its value before the call plus
  the batch size): the gate does not touch it. If the size is at least \<open>window_size\<close> (a
  size, so not negative), the engine is invoked once, on the buffer the call leaves, and
  that buffer holds exactly \<open>window_size\<close> rows, whether or not the engine or the gauges
  raise.
\<close>

theorem iterate_gate:
  "(case iterate env b (self, g) of (res, self', g') \<Rightarrow>
      (shape0 (current self) + shape0 b < window_size (options self) \<longrightarrow>
         res = None \<and> executed g' = executed g \<and> metrics self' = metrics self
         \<and> logger g' = logger g @ [Info_not_enough_data (shape0 (current self) + shape0 b)
                                     (window_size (options self))]
         \<and> rows_of (current self') = rows_of (current self) @ rows_of b
         \<and> new_rows self' = new_rows self + shape0 b)
    \<and> (0 \<le> window_size (options self)
         \<and> window_size (options self) \<le> shape0 (current self) + shape0 b \<longrightarrow>
         executed g' = executed g @ [(reference self, current self', column_mapping self)]
         \<and> shape0 (current self') = window_size (options self)))"
proof (cases "shape0 (current self) + shape0 b < window_size (options self)")
  case True
  then show ?thesis
    by (simp add: iterate_skip rows_of_append)
next
  case False
  show ?thesis
  proof (cases "0 \<le> window_size (options self)")
    case w: True
    obtain cur2 where t: "trim (append_frame (current self) b) (window_size (options self)) = Inr cur2"
      using trim_append [OF w] by blast
    obtain res self' g' where r: "iterate env b (self, g) = (res, self', g')"
      by (cases "iterate env b (self, g)") auto
    from False have le: "window_size (options self) \<le> shape0 (current self) + shape0 b"
      by simp
    from iterate_evaluated [OF le t r] trim_append_shape0 [OF t le] show ?thesis
      using False by (simp add: r)
  next
    case False
    with \<open>\<not> shape0 (current self) + shape0 b < window_size (options self)\<close> show ?thesis
      by (simp add: shape0_def split: prod.splits)
  qed
qed

theorem iterate_gate_witness:
  "(shape0 (example_rows 0 10) + shape0 (example_rows 10 15) < 30
     \<and> (case iterate steady_engine (example_rows 10 15) (example_service 30 (example_rows 0 10)) of
          (res, self', g') \<Rightarrow>
            res = None \<and> executed g' = [] \<and> logger g' = [Info_not_enough_data 25 30]
            \<and> new_rows self' = 15))
   \<and> ((0::int) \<le> 30 \<and> 30 \<le> shape0 (example_rows 0 25) + shape0 (example_rows 25 10)
     \<and> (case iterate steady_engine (example_rows 25 10) (example_service 30 (example_rows 0 25)) of
          (res, self', g') \<Rightarrow>
            executed g' = [(example_rows 100 3, current self', ())] \<and> shape0 (current self') = 30))"
  using iterate_gate [where env = steady_engine and b = "example_rows 10 15"
                         and self = "fst (example_service 30 (example_rows 0 10))"
                         and g = "snd (example_service 30 (example_rows 0 10))"]
        iterate_gate [where env = steady_engine and b = "example_rows 25 10"
                         and self = "fst (example_service 30 (example_rows 0 25))"
                         and g = "snd (example_service 30 (example_rows 0 25))"]
  by (simp add: example_service_def example_options_def shape0_example_rows split: prod.splits)

section \<open>The trim\<close>

text \<open>
  Claim C2. Trimming an appended buffer of \<open>n\<close> rows to a target \<open>t\<close> (\<open>0 \<le> t \<le> n\<close>)
  removes exactly the first \<open>n - t\<close> rows: the rows before the trim are the removed head
  followed by the survivors, in their order. The same holds for the buffer an evaluating
  \<open>iterate\<close> call leaves. Appending three rows \<open>r1, r2, r3\<close> to an empty buffer and
  trimming to 2 leaves exactly \<open>r2, r3\<close>. From an empty buffer with \<open>window_size = 30\<close>, a
  call that delivers 45 rows leaves exactly the last 30 of them: the oldest 15 rows of the
  batch itself are dropped.
\<close>

theorem trim_oldest_first:
  "(0 \<le> t \<and> t \<le> shape0 f + shape0 b \<longrightarrow>
      (\<exists>f'. trim (append_frame f b) t = Inr f'
         \<and> rows_of f' = drop (nat (shape0 f + shape0 b - t)) (rows_of f @ rows_of b)
         \<and> rows_of f @ rows_of b
             = take (nat (shape0 f + shape0 b - t)) (rows_of f @ rows_of b) @ rows_of f'))
   \<and> (0 \<le> window_size (options self)
        \<and> window_size (options self) \<le> shape0 (current self) + shape0 b \<longrightarrow>
      rows_of (current (fst (snd (iterate env b (self, g)))))
        = drop (nat (shape0 (current self) + shape0 b - window_size (options self)))
            (rows_of (current self) @ rows_of b))
   \<and> (\<exists>f'. trim (append_frame (empty_frame cols)
                  \<lparr>columns = cols, entries = [(l1, r1), (l2, r2), (l3, r3)]\<rparr>) 2 = Inr f'
         \<and> rows_of f' = [r2, r3])
   \<and> (entries (current self) = [] \<and> window_size (options self) = 30
        \<and> length (entries b) = 45 \<longrightarrow>
      rows_of (current (fst (snd (iterate env b (self, g))))) = drop 15 (rows_of b)
      \<and> length (rows_of (current (fst (snd (iterate env b (self, g)))))) = 30)"
proof -
  have c1: "0 \<le> t \<and> t \<le> shape0 f + shape0 b \<longrightarrow>
      (\<exists>f'. trim (append_frame f b) t = Inr f'
         \<and> rows_of f' = drop (nat (shape0 f + shape0 b - t)) (rows_of f @ rows_of b)
         \<and> rows_of f @ rows_of b
             = take (nat (shape0 f + shape0 b - t)) (rows_of f @ rows_of b) @ rows_of f')"
  proof
    assume "0 \<le> t \<and> t \<le> shape0 f + shape0 b"
    then obtain f' where f': "trim (append_frame f b) t = Inr f'"
        "rows_of f' = drop (nat (shape0 f + shape0 b - t)) (rows_of f @ rows_of b)"
      using trim_append_drop [of t f b] by blast
    have "rows_of f @ rows_of b
          = take (nat (shape0 f + shape0 b - t)) (rows_of f @ rows_of b) @ rows_of f'"
      unfolding f'(2) by (rule append_take_drop_id [symmetric])
    with f' show "\<exists>f'. trim (append_frame f b) t = Inr f'
         \<and> rows_of f' = drop (nat (shape0 f + shape0 b - t)) (rows_of f @ rows_of b)
         \<and> rows_of f @ rows_of b
             = take (nat (shape0 f + shape0 b - t)) (rows_of f @ rows_of b) @ rows_of f'"
      by blast
  qed
  have c3: "\<exists>f'. trim (append_frame (empty_frame cols)
                  \<lparr>columns = cols, entries = [(l1, r1), (l2, r2), (l3, r3)]\<rparr>) 2 = Inr f'
         \<and> rows_of f' = [r2, r3]"
    using trim_append_drop [of 2 "empty_frame cols" "\<lparr>columns = cols, entries = [(l1, r1), (l2, r2), (l3, r3)]\<rparr>"]
    by (simp add: shape0_def empty_frame_def rows_of_def)
  have c4: "entries (current self) = [] \<and> window_size (options self) = 30
        \<and> length (entries b) = 45 \<longrightarrow>
      rows_of (current (fst (snd (iterate env b (self, g))))) = drop 15 (rows_of b)
      \<and> length (rows_of (current (fst (snd (iterate env b (self, g)))))) = 30"
    using iterate_window_rows [of self b env g] by (auto simp: shape0_def rows_of_def)
  from c1 iterate_window_rows [of self b env g] c3 c4 show ?thesis by blast
qed

theorem trim_oldest_first_witness:
  "((0::int) \<le> 2 \<and> 2 \<le> shape0 (example_rows 0 1) + shape0 (example_rows 1 2)
     \<and> (case trim (append_frame (example_rows 0 1) (example_rows 1 2)) 2 of
           Inl e \<Rightarrow> False
         | Inr f' \<Rightarrow> rows_of f' = [[''x'' \<mapsto> 1], [''x'' \<mapsto> 2]])
     \<and> rows_of (current (fst (snd (iterate steady_engine (example_rows 1 2)
                                      (example_service 2 (example_rows 0 1))))))
         = [[''x'' \<mapsto> 1], [''x'' \<mapsto> 2]])
   \<and> (entries (empty_frame [''x'']) = ([] :: (int \<times> int row) list)
     \<and> length (entries (example_rows 0 45)) = 45
     \<and> rows_of (current (fst (snd (iterate steady_engine (example_rows 0 45)
                                      (example_service 30 (empty_frame [''x''])))))) 
         = map (\<lambda>k. [''x'' \<mapsto> int k]) [15..<45])"
proof -
  let ?s2 = "example_service 2 (example_rows 0 1)"
  let ?s30 = "example_service 30 (empty_frame [''x''])"
  have r3: "drop (Suc 0) (rows_of (example_rows 0 1) @ rows_of (example_rows 1 2))
            = [[''x'' \<mapsto> 1], [''x'' \<mapsto> 2]]"
    by (simp add: rows_of_example_rows upt_rec)
  have r45: "drop 15 (rows_of (example_rows 0 45)) = map (\<lambda>k. [''x'' \<mapsto> int k]) [15..<45]"
    by (simp add: rows_of_example_rows drop_map)
  have e: "entries (empty_frame [''x'']) = ([] :: (int \<times> int row) list)"
    by (simp add: empty_frame_def)
  have l45: "length (entries (example_rows 0 45)) = 45"
    by (simp add: example_rows_def)
  note small = trim_oldest_first [where f = "example_rows 0 1" and b = "example_rows 1 2"
          and t = 2 and self = "fst ?s2" and g = "snd ?s2" and env = steady_engine]
  note burst = trim_oldest_first [where b = "example_rows 0 45"
          and self = "fst ?s30" and g = "snd ?s30" and env = steady_engine]
  have t1: "case trim (append_frame (example_rows 0 1) (example_rows 1 2)) 2 of
           Inl e \<Rightarrow> False
         | Inr f' \<Rightarrow> rows_of f' = [[''x'' \<mapsto> 1], [''x'' \<mapsto> 2]]"
    using small [THEN conjunct1] r3 by (auto simp: shape0_example_rows)
  have t2: "rows_of (current (fst (snd (iterate steady_engine (example_rows 1 2) ?s2))))
         = [[''x'' \<mapsto> 1], [''x'' \<mapsto> 2]]"
    using small [THEN conjunct2, THEN conjunct1] r3
    by (simp add: shape0_example_rows example_service_def example_options_def)
  have t3: "rows_of (current (fst (snd (iterate steady_engine (example_rows 0 45) ?s30))))
         = map (\<lambda>k. [''x'' \<mapsto> int k]) [15..<45]"
    using burst [THEN conjunct2, THEN conjunct2, THEN conjunct2] r45 e l45
    by (simp add: example_service_def example_options_def)
  from t1 t2 t3 e l45 show ?thesis
    by (simp add: shape0_example_rows)
qed

section \<open>The bound on the buffer\<close>

text \<open>
  Claim C3. Start from a freshly constructed service and make any sequence of \<open>iterate\<close>
  calls with batches of any sizes. Whenever a further call runs an evaluation cycle (its
  trim completed and the engine was invoked, so the list of engine calls grew), the buffer
  it leaves holds at most \<open>window_size\<close> rows. The same holds for the \<open>Monitor\<close> of
  \<open>rebuild/utils.py\<close>: after any sequence of calls, a call that passes the size test and
  returns leaves at most \<open>window_size\<close> rows.
\<close>

theorem buffer_bounded_after_trim:
  assumes "MonitoringService env ref opts cm proc = Inr start"
  shows "(case iterate env b (iterate_all env bs start) of (res, self', g') \<Rightarrow>
            executed g' \<noteq> executed (snd (iterate_all env bs start)) \<longrightarrow>
            shape0 (current self') \<le> window_size opts)
       \<and> (case Monitor_iterate b (Monitor_iterate_all bs (Monitor ref (Some w), printed)) of
            (res, m', out') \<Rightarrow>
              res = None
              \<and> w \<le> shape0 (current_data (fst (Monitor_iterate_all bs (Monitor ref (Some w), printed))))
                      + shape0 b \<longrightarrow>
              shape0 (current_data m') \<le> w)"
proof
  obtain self0 proc' where start: "start = (self0, proc')" by (cases start)
  obtain self g where st: "iterate_all env bs start = (self, g)"
    by (cases "iterate_all env bs start")
  have "options (fst (iterate_all env bs start)) = options (fst start)"
    by (rule iterate_all_options)
  then have "options self = options (fst start)"
    by (simp only: st fst_conv)
  then have "options self = options self0"
    by (simp add: start)
  moreover have "options self0 = opts"
    using MonitoringService_fields [of env ref opts cm proc self0 proc'] assms by (simp add: start)
  ultimately have opts: "window_size (options self) = window_size opts" by simp
  obtain res self' g' where r: "iterate env b (self, g) = (res, self', g')"
    by (cases "iterate env b (self, g)") auto
  from iterate_executed_cases [OF r] opts
  show "case iterate env b (iterate_all env bs start) of (res, self', g') \<Rightarrow>
            executed g' \<noteq> executed (snd (iterate_all env bs start)) \<longrightarrow>
            shape0 (current self') \<le> window_size opts"
    by (auto simp: st r)
next
  let ?st = "Monitor_iterate_all bs (Monitor ref (Some w), printed)"
  obtain self out where st: "?st = (self, out)" by (cases ?st)
  have "config (fst ?st) = config (fst (Monitor ref (Some w), printed))"
    by (rule Monitor_iterate_all_config)
  then have "config self = config (Monitor ref (Some w))"
    by (simp only: st fst_conv)
  then have cfg: "config self = Some w"
    by (simp add: Monitor_def)
  obtain res m' out' where r: "Monitor_iterate b (self, out) = (res, m', out')"
    by (cases "Monitor_iterate b (self, out)") auto
  show "case Monitor_iterate b ?st of
            (res, m', out') \<Rightarrow>
              res = None \<and> w \<le> shape0 (current_data (fst ?st)) + shape0 b \<longrightarrow>
              shape0 (current_data m') \<le> w"
    using Monitor_iterate_trimmed [OF cfg, of b out m' out'] r
    by (auto simp: st)
qed

theorem buffer_bounded_after_trim_witness:
  "MonitoringService steady_engine (example_rows 100 3) (example_options 2 False) () fresh_process
     = Inr (example_service 2 (empty_frame [''x'']))
   \<and> (case iterate steady_engine (example_rows 1 3)
              (iterate_all steady_engine [example_rows 0 1]
                 (example_service 2 (empty_frame [''x'']))) of
         (res, self', g') \<Rightarrow>
           executed g' \<noteq> executed (snd (iterate_all steady_engine [example_rows 0 1]
                                            (example_service 2 (empty_frame [''x'']))))
           \<and> shape0 (current self') \<le> 2)
   \<and> (case Monitor_iterate (example_rows 40 10)
              (Monitor_iterate_all [example_rows 0 40] (Monitor (example_rows 100 3) (Some 30), [])) of
         (res, m', out') \<Rightarrow>
           res = None
           \<and> 30 \<le> shape0 (current_data (fst (Monitor_iterate_all [example_rows 0 40]
                                                  (Monitor (example_rows 100 3) (Some 30), []))))
                     + shape0 (example_rows 40 10)
           \<and> shape0 (current_data m') \<le> 30)"
proof -
  let ?st0 = "example_service 2 (empty_frame [''x''])"
  let ?st1 = "iterate_all steady_engine [example_rows 0 1] ?st0"
  let ?m0 = "(Monitor (example_rows 100 3) (Some 30), [] :: string list)"
  let ?m1 = "Monitor_iterate_all [example_rows 0 40] ?m0"
  note fresh = example_fresh [of 2]
  have st1: "?st1 = (fst ?st0\<lparr>current := append_frame (empty_frame [''x'']) (example_rows 0 1),
                               new_rows := 1\<rparr>,
                     snd ?st0\<lparr>logger := [Info_not_enough_data 1 2]\<rparr>)"
    using iterate_skip [of "fst ?st0" "example_rows 0 1" steady_engine "snd ?st0"]
    by (simp add: example_service_def example_options_def shape0_example_rows
        shape0_empty_frame)
  obtain res self' g' where r: "iterate steady_engine (example_rows 1 3) ?st1 = (res, self', g')"
    and ex: "executed g' = executed (snd ?st1) @ [(reference (fst ?st1), current self', ())]"
    and sz: "shape0 (current self') = 2"
    using iterate_evaluates [of "fst ?st1" "example_rows 1 3" steady_engine "snd ?st1"]
    unfolding st1
    by (auto simp: example_service_def example_options_def shape0_append shape0_example_rows
        shape0_empty_frame)
  have svc: "case iterate steady_engine (example_rows 1 3) ?st1 of
         (res, self', g') \<Rightarrow> executed g' \<noteq> executed (snd ?st1) \<and> shape0 (current self') \<le> 2"
    using buffer_bounded_after_trim [OF fresh, where b = "example_rows 1 3"
            and bs = "[example_rows 0 1]"] ex sz
    by (simp add: r del: iterate_all.simps Monitor_iterate_all.simps One_nat_def)
  obtain c1 where m1: "?m1 = (Monitor (example_rows 100 3) (Some 30)\<lparr>current_data := c1\<rparr>, [])"
    and c1: "shape0 c1 = 30"
    using Monitor_iterate_ok [of "Monitor (example_rows 100 3) (Some 30)" 30 "example_rows 0 40" "[]"]
    by (auto simp: Monitor_def shape0_example_rows shape0_empty_frame)
  obtain c2 where m2: "Monitor_iterate (example_rows 40 10) ?m1
                       = (None, Monitor (example_rows 100 3) (Some 30)\<lparr>current_data := c2\<rparr>, [])"
    using Monitor_iterate_ok [of "Monitor (example_rows 100 3) (Some 30)\<lparr>current_data := c1\<rparr>"
        30 "example_rows 40 10" "[]"] c1
    unfolding m1 by (auto simp: Monitor_def shape0_example_rows)
  have mon: "case Monitor_iterate (example_rows 40 10) ?m1 of
         (res, m', out') \<Rightarrow>
           res = None \<and> 30 \<le> shape0 (current_data (fst ?m1)) + shape0 (example_rows 40 10)
           \<and> shape0 (current_data m') \<le> 30"
    using buffer_bounded_after_trim [OF fresh, where b = "example_rows 40 10"
            and bs = "[example_rows 0 40]" and w = 30 and printed = "[]"] m2 c1
    by (simp add: m1 shape0_example_rows
        del: iterate_all.simps Monitor_iterate_all.simps One_nat_def)
  from fresh svc mon show ?thesis by simp
qed

section \<open>The order of the evaluation path\<close>

text \<open>
  Claim C4, as amended. In the evaluation path the code trims the buffer, then decrements
  the counter by the number of rows the call appended, and only then invokes the engine, on
  the reference, the trimmed buffer and the column mapping. So the counter is back at its
  value from before the call whatever the engine does: when the engine raises, the
  exception leaves the call with the counter already decremented.
\<close>

theorem decrement_precedes_engine:
  assumes "window_size (options self) \<le> shape0 (current self) + shape0 b"
    and "trim (append_frame (current self) b) (window_size (options self)) = Inr cur2"
  shows "(case iterate env b (self, g) of (res, self', g') \<Rightarrow>
            current self' = cur2
            \<and> executed g' = executed g @ [(reference self, cur2, column_mapping self)]
            \<and> new_rows self' = (new_rows self + shape0 b) - shape0 b)
       \<and> (\<forall>e. execute env (monitoring self) (reference self) cur2 (column_mapping self) = Inl e
              \<longrightarrow> iterate env b (self, g) =
                    (Some e,
                     self\<lparr>current := cur2, new_rows := (new_rows self + shape0 b) - shape0 b\<rparr>,
                     g\<lparr>executed := executed g @ [(reference self, cur2, column_mapping self)]\<rparr>))"
proof
  obtain res self' g' where r: "iterate env b (self, g) = (res, self', g')"
    by (cases "iterate env b (self, g)") auto
  from iterate_evaluated [OF assms r]
  show "case iterate env b (self, g) of (res, self', g') \<Rightarrow>
            current self' = cur2
            \<and> executed g' = executed g @ [(reference self, cur2, column_mapping self)]
            \<and> new_rows self' = (new_rows self + shape0 b) - shape0 b"
    by (simp add: r)
next
  show "\<forall>e. execute env (monitoring self) (reference self) cur2 (column_mapping self) = Inl e
              \<longrightarrow> iterate env b (self, g) =
                    (Some e,
                     self\<lparr>current := cur2, new_rows := (new_rows self + shape0 b) - shape0 b\<rparr>,
                     g\<lparr>executed := executed g @ [(reference self, cur2, column_mapping self)]\<rparr>)"
    by (simp add: iterate_engine_failure [OF assms])
qed

theorem decrement_precedes_engine_witness:
  "trim (append_frame (example_rows 0 2) (example_rows 2 1)) 2
       = Inr \<lparr>columns = [''x''], entries = [(0, [''x'' \<mapsto> 1]), (1, [''x'' \<mapsto> 2])]\<rparr>
   \<and> execute failing_engine [DataDriftMonitor] (example_rows 100 3)
         \<lparr>columns = [''x''], entries = [(0, [''x'' \<mapsto> 1]), (1, [''x'' \<mapsto> 2])]\<rparr> ()
       = Inl (Engine_error ''degenerate data'')
   \<and> (case iterate failing_engine (example_rows 2 1) (example_service 2 (example_rows 0 2)) of
         (res, self', g') \<Rightarrow>
           res = Some (Engine_error ''degenerate data'') \<and> new_rows self' = 0
           \<and> executed g'
               = [(example_rows 100 3,
                   \<lparr>columns = [''x''], entries = [(0, [''x'' \<mapsto> 1]), (1, [''x'' \<mapsto> 2])]\<rparr>, ())])"
  using decrement_precedes_engine [OF example_service_ready,
          where env = failing_engine and g = "snd (example_service 2 (example_rows 0 2))"]
        example_trim example_failing_execute
  by (simp add: example_service_def split: prod.splits)

text \<open>
  The claim as stated puts the decrement after the engine invocation. With an engine that
  raises, that order leaves the counter incremented; the code leaves it decremented.
\<close>

theorem decrement_after_engine_counterexample:
  "new_rows (fst (snd (iterate failing_engine (example_rows 2 1)
                         (example_service 2 (example_rows 0 2))))) = 0
   \<and> new_rows (fst (snd (iterate_as_specified failing_engine (example_rows 2 1)
                           (example_service 2 (example_rows 0 2))))) = 1
   \<and> iterate failing_engine (example_rows 2 1) (example_service 2 (example_rows 0 2))
       \<noteq> iterate_as_specified failing_engine (example_rows 2 1)
           (example_service 2 (example_rows 0 2))"
proof -
  let ?st = "example_service 2 (example_rows 0 2)"
  have code: "new_rows (fst (snd (iterate failing_engine (example_rows 2 1) ?st))) = 0"
    using iterate_engine_failure [OF example_service_ready example_failing_execute,
            of "snd ?st"]
    by (simp add: example_service_def)
  have spec: "new_rows (fst (snd (iterate_as_specified failing_engine (example_rows 2 1) ?st))) = 1"
    using example_service_ready
    by (simp add: iterate_as_specified_def example_service_def example_options_def
        shape0_append shape0_example_rows example_failing_execute Let_def)
  from code spec show ?thesis by auto
qed

section \<open>A failing engine\<close>

text \<open>
  Claim C5, as amended. Let a call reach the evaluation: the size test passes and the trim
  yields the window \<open>cur2\<close>. If the engine raises, in \<open>execute\<close> or while its metrics
  are read, the exception leaves the call with the buffer equal to \<open>cur2\<close>: exactly
  \<open>window_size\<close> rows, the most recent ones of the old buffer followed by the batch, in
  order. Nothing is rolled back, and the next call starts from this state. When
  \<open>execute\<close> raises, the gauges of the service, the fingerprint gauge and the registry
  are as they were before the call. When the generator of the metrics raises, the
  fingerprint gauge is already set and every metric yielded before the failure is already
  published, and they stay so.
\<close>

theorem engine_failure_keeps_window:
  assumes "window_size (options self) \<le> shape0 (current self) + shape0 b"
    and "trim (append_frame (current self) b) (window_size (options self)) = Inr cur2"
  shows "(\<forall>e. execute env (monitoring self) (reference self) cur2 (column_mapping self) = Inl e
            \<longrightarrow>
            (case iterate env b (self, g) of (res, self', g') \<Rightarrow>
               res = Some e \<and> current self' = cur2
               \<and> shape0 (current self') = window_size (options self)
               \<and> rows_of (current self')
                   = drop (length (rows_of (current self) @ rows_of b)
                             - nat (window_size (options self)))
                       (rows_of (current self) @ rows_of b)
               \<and> new_rows self' = new_rows self
               \<and> iterate_all env [b] (self, g) = (self', g')
               \<and> metrics self' = metrics self \<and> hash_metric self' = hash_metric self
               \<and> registry g' = registry g))
       \<and> (\<forall>a yielded e ms reg.
            execute env (monitoring self) (reference self) cur2 (column_mapping self) = Inr a
            \<and> labelnames (hash_metric self) = [''hash'']
            \<and> monitoring_metrics env a = (yielded, Some e)
            \<and> publish_all yielded (metrics self, registry g) = (None, ms, reg)
            \<longrightarrow>
            (case iterate env b (self, g) of (res, self', g') \<Rightarrow>
               res = Some e \<and> current self' = cur2
               \<and> shape0 (current self') = window_size (options self)
               \<and> rows_of (current self')
                   = drop (length (rows_of (current self) @ rows_of b)
                             - nat (window_size (options self)))
                       (rows_of (current self) @ rows_of b)
               \<and> new_rows self' = new_rows self
               \<and> iterate_all env [b] (self, g) = (self', g')
               \<and> metrics self' = ms \<and> registry g' = reg
               \<and> hash_metric self'
                   = (hash_metric self)
                       \<lparr>samples := (samples (hash_metric self))([hash self] \<mapsto> 1)\<rparr>))"
proof (intro conjI allI impI)
  fix e
  assume x: "execute env (monitoring self) (reference self) cur2 (column_mapping self) = Inl e"
  show "case iterate env b (self, g) of (res, self', g') \<Rightarrow>
               res = Some e \<and> current self' = cur2
               \<and> shape0 (current self') = window_size (options self)
               \<and> rows_of (current self')
                   = drop (length (rows_of (current self) @ rows_of b)
                             - nat (window_size (options self)))
                       (rows_of (current self) @ rows_of b)
               \<and> new_rows self' = new_rows self
               \<and> iterate_all env [b] (self, g) = (self', g')
               \<and> metrics self' = metrics self \<and> hash_metric self' = hash_metric self
               \<and> registry g' = registry g"
    using trim_append_rows [OF assms(2)] trim_append_shape0 [OF assms(2) assms(1)]
    by (simp add: iterate_engine_failure [OF assms x])
next
  fix a yielded e ms reg
  assume h: "execute env (monitoring self) (reference self) cur2 (column_mapping self) = Inr a
            \<and> labelnames (hash_metric self) = [''hash'']
            \<and> monitoring_metrics env a = (yielded, Some e)
            \<and> publish_all yielded (metrics self, registry g) = (None, ms, reg)"
  then have x: "execute env (monitoring self) (reference self) cur2 (column_mapping self) = Inr a"
    and l: "labelnames (hash_metric self) = [''hash'']"
    and m: "monitoring_metrics env a = (yielded, Some e)"
    and q: "publish_all yielded (metrics self, registry g) = (None, ms, reg)"
    by simp_all
  show "case iterate env b (self, g) of (res, self', g') \<Rightarrow>
               res = Some e \<and> current self' = cur2
               \<and> shape0 (current self') = window_size (options self)
               \<and> rows_of (current self')
                   = drop (length (rows_of (current self) @ rows_of b)
                             - nat (window_size (options self)))
                       (rows_of (current self) @ rows_of b)
               \<and> new_rows self' = new_rows self
               \<and> iterate_all env [b] (self, g) = (self', g')
               \<and> metrics self' = ms \<and> registry g' = reg
               \<and> hash_metric self'
                   = (hash_metric self)
                       \<lparr>samples := (samples (hash_metric self))([hash self] \<mapsto> 1)\<rparr>"
    using trim_append_rows [OF assms(2)] trim_append_shape0 [OF assms(2) assms(1)]
    by (simp add: iterate_metrics_failure [OF assms x l m q])
qed

theorem engine_failure_keeps_window_witness:
  "window_size (options (fst (example_service 2 (example_rows 0 2))))
     \<le> shape0 (current (fst (example_service 2 (example_rows 0 2)))) + shape0 (example_rows 2 1)
   \<and> trim (append_frame (example_rows 0 2) (example_rows 2 1)) 2
       = Inr \<lparr>columns = [''x''], entries = [(0, [''x'' \<mapsto> 1]), (1, [''x'' \<mapsto> 2])]\<rparr>
   \<and> execute failing_engine [DataDriftMonitor] (example_rows 100 3)
         \<lparr>columns = [''x''], entries = [(0, [''x'' \<mapsto> 1]), (1, [''x'' \<mapsto> 2])]\<rparr> ()
       = Inl (Engine_error ''degenerate data'')
   \<and> (case iterate failing_engine (example_rows 2 1) (example_service 2 (example_rows 0 2)) of
         (res, self', g') \<Rightarrow>
           res = Some (Engine_error ''degenerate data'')
           \<and> rows_of (current self') = [[''x'' \<mapsto> 1], [''x'' \<mapsto> 2]]
           \<and> metrics self' = Map.empty
           \<and> registry g' = [''evidently:reference_dataset_hash''])
   \<and> execute late_failing_engine [DataDriftMonitor] (example_rows 100 3)
         \<lparr>columns = [''x''], entries = [(0, [''x'' \<mapsto> 1]), (1, [''x'' \<mapsto> 2])]\<rparr> ()
       = Inr ()
   \<and> monitoring_metrics late_failing_engine ()
       = ([(''data_drift:n_drifted_features'', 0, None)], Some (Engine_error ''degenerate data''))
   \<and> (case iterate late_failing_engine (example_rows 2 1)
              (example_service 2 (example_rows 0 2)) of
         (res, self', g') \<Rightarrow>
           res = Some (Engine_error ''degenerate data'')
           \<and> rows_of (current self') = [[''x'' \<mapsto> 1], [''x'' \<mapsto> 2]]
           \<and> shape0 (current self') = 2
           \<and> registry g'
               = [''evidently:reference_dataset_hash'',
                  ''evidently:data_drift:n_drifted_features''])"
proof -
  let ?self = "fst (example_service 2 (example_rows 0 2))"
  let ?g = "snd (example_service 2 (example_rows 0 2))"
  note early = engine_failure_keeps_window [OF example_service_ready,
      where env = failing_engine and g = ?g, THEN conjunct1, rule_format,
      OF example_failing_execute]
  note late = engine_failure_keeps_window [OF example_service_ready,
      where env = late_failing_engine and g = ?g, THEN conjunct2, rule_format,
      OF conjI [OF example_late_execute
           conjI [OF example_hash_labelnames conjI [OF example_late_metrics example_late_publish]]]]
  have a: "case iterate failing_engine (example_rows 2 1) (example_service 2 (example_rows 0 2)) of
         (res, self', g') \<Rightarrow>
           res = Some (Engine_error ''degenerate data'')
           \<and> rows_of (current self') = [[''x'' \<mapsto> 1], [''x'' \<mapsto> 2]]
           \<and> metrics self' = Map.empty
           \<and> registry g' = [''evidently:reference_dataset_hash'']"
    using early
    by (auto simp: example_service_def rows_of_def split: prod.splits)
  have b: "case iterate late_failing_engine (example_rows 2 1)
              (example_service 2 (example_rows 0 2)) of
         (res, self', g') \<Rightarrow>
           res = Some (Engine_error ''degenerate data'')
           \<and> rows_of (current self') = [[''x'' \<mapsto> 1], [''x'' \<mapsto> 2]]
           \<and> shape0 (current self') = 2
           \<and> registry g'
               = [''evidently:reference_dataset_hash'',
                  ''evidently:data_drift:n_drifted_features'']"
    using late
    by (auto simp: example_service_def example_options_def rows_of_def split: prod.splits)
  show ?thesis
    by (intro conjI example_service_ready(1) example_trim example_failing_execute a
        example_late_execute example_late_metrics b)
qed

text \<open>
  The claim as stated has no metric updated in a cycle in which the engine raises. Here the
  generator of the metrics yields one metric and then raises: the exception leaves the call
  with that metric published and the fingerprint gauge set, neither of which was so before.
\<close>

theorem engine_failure_metrics_counterexample:
  "fst (iterate late_failing_engine (example_rows 2 1) (example_service 2 (example_rows 0 2)))
     = Some (Engine_error ''degenerate data'')
   \<and> metrics (fst (example_service 2 (example_rows 0 2)))
       ''evidently:data_drift:n_drifted_features'' = None
   \<and> metrics (fst (snd (iterate late_failing_engine (example_rows 2 1)
                          (example_service 2 (example_rows 0 2)))))
       ''evidently:data_drift:n_drifted_features''
       = Some \<lparr>labelnames = [], samples = [[] \<mapsto> 0]\<rparr>
   \<and> hash_metric (fst (example_service 2 (example_rows 0 2)))
       = \<lparr>labelnames = [''hash''], samples = Map.empty\<rparr>
   \<and> hash_metric (fst (snd (iterate late_failing_engine (example_rows 2 1)
                              (example_service 2 (example_rows 0 2)))))
       = \<lparr>labelnames = [''hash''], samples = [[''###''] \<mapsto> 1]\<rparr>"
  using iterate_metrics_failure [OF example_service_ready example_late_execute
          example_hash_labelnames example_late_metrics example_late_publish]
  by (simp add: example_service_def)

section \<open>What the caller sees of a failing engine\<close>

text \<open>
  Claim C6, as amended. Nothing in the service or in the route handles an exception of the
  engine. When the engine raises during an evaluation, in \<open>execute\<close> or while its
  metrics are read, the exception leaves \<open>MonitoringService.iterate\<close> and then the view
  function, which therefore does not return \<open>ok\<close>; the service writes nothing to the
  log; the buffer keeps the trimmed window.
\<close>

theorem engine_failure_reaches_caller:
  assumes "window_size (options self) \<le> shape0 (current self) + shape0 b"
    and "trim (append_frame (current self) b) (window_size (options self)) = Inr cur2"
  shows "(\<forall>e. execute env (monitoring self) (reference self) cur2 (column_mapping self) = Inl e
            \<longrightarrow>
            (case iterate_route env b (Some self, g) of (r, service', g') \<Rightarrow>
               r = Inl e \<and> r \<noteq> Inr (Text_response ''ok'')
               \<and> logger g' = logger g
               \<and> (case service' of None \<Rightarrow> False | Some self' \<Rightarrow> current self' = cur2)
               \<and> fst (iterate env b (self, g)) = Some e))
       \<and> (\<forall>a yielded e ms reg.
            execute env (monitoring self) (reference self) cur2 (column_mapping self) = Inr a
            \<and> labelnames (hash_metric self) = [''hash'']
            \<and> monitoring_metrics env a = (yielded, Some e)
            \<and> publish_all yielded (metrics self, registry g) = (None, ms, reg)
            \<longrightarrow>
            (case iterate_route env b (Some self, g) of (r, service', g') \<Rightarrow>
               r = Inl e \<and> r \<noteq> Inr (Text_response ''ok'')
               \<and> logger g' = logger g
               \<and> (case service' of None \<Rightarrow> False | Some self' \<Rightarrow> current self' = cur2)
               \<and> fst (iterate env b (self, g)) = Some e))"
proof (intro conjI allI impI)
  fix e
  assume x: "execute env (monitoring self) (reference self) cur2 (column_mapping self) = Inl e"
  show "case iterate_route env b (Some self, g) of (r, service', g') \<Rightarrow>
               r = Inl e \<and> r \<noteq> Inr (Text_response ''ok'')
               \<and> logger g' = logger g
               \<and> (case service' of None \<Rightarrow> False | Some self' \<Rightarrow> current self' = cur2)
               \<and> fst (iterate env b (self, g)) = Some e"
    by (simp add: iterate_route_def iterate_engine_failure [OF assms x])
next
  fix a yielded e ms reg
  assume h: "execute env (monitoring self) (reference self) cur2 (column_mapping self) = Inr a
            \<and> labelnames (hash_metric self) = [''hash'']
            \<and> monitoring_metrics env a = (yielded, Some e)
            \<and> publish_all yielded (metrics self, registry g) = (None, ms, reg)"
  then have x: "execute env (monitoring self) (reference self) cur2 (column_mapping self) = Inr a"
    and l: "labelnames (hash_metric self) = [''hash'']"
    and m: "monitoring_metrics env a = (yielded, Some e)"
    and q: "publish_all yielded (metrics self, registry g) = (None, ms, reg)"
    by simp_all
  show "case iterate_route env b (Some self, g) of (r, service', g') \<Rightarrow>
               r = Inl e \<and> r \<noteq> Inr (Text_response ''ok'')
               \<and> logger g' = logger g
               \<and> (case service' of None \<Rightarrow> False | Some self' \<Rightarrow> current self' = cur2)
               \<and> fst (iterate env b (self, g)) = Some e"
    by (simp add: iterate_route_def iterate_metrics_failure [OF assms x l m q])
qed

theorem engine_failure_reaches_caller_witness:
  "trim (append_frame (example_rows 0 2) (example_rows 2 1)) 2
       = Inr \<lparr>columns = [''x''], entries = [(0, [''x'' \<mapsto> 1]), (1, [''x'' \<mapsto> 2])]\<rparr>
   \<and> execute failing_engine [DataDriftMonitor] (example_rows 100 3)
         \<lparr>columns = [''x''], entries = [(0, [''x'' \<mapsto> 1]), (1, [''x'' \<mapsto> 2])]\<rparr> ()
       = Inl (Engine_error ''degenerate data'')
   \<and> (case iterate_route failing_engine (example_rows 2 1)
              (Some (fst (example_service 2 (example_rows 0 2))),
               snd (example_service 2 (example_rows 0 2))) of
         (r, service', g') \<Rightarrow> r = Inl (Engine_error ''degenerate data'') \<and> logger g' = [])
   \<and> monitoring_metrics late_failing_engine ()
       = ([(''data_drift:n_drifted_features'', 0, None)], Some (Engine_error ''degenerate data''))
   \<and> (case iterate_route late_failing_engine (example_rows 2 1)
              (Some (fst (example_service 2 (example_rows 0 2))),
               snd (example_service 2 (example_rows 0 2))) of
         (r, service', g') \<Rightarrow> r = Inl (Engine_error ''degenerate data'') \<and> logger g' = [])"
proof -
  let ?g = "snd (example_service 2 (example_rows 0 2))"
  note early = engine_failure_reaches_caller [OF example_service_ready,
      where env = failing_engine and g = ?g, THEN conjunct1, rule_format,
      OF example_failing_execute]
  note late = engine_failure_reaches_caller [OF example_service_ready,
      where env = late_failing_engine and g = ?g, THEN conjunct2, rule_format,
      OF conjI [OF example_late_execute
           conjI [OF example_hash_labelnames conjI [OF example_late_metrics example_late_publish]]]]
  have a: "case iterate_route failing_engine (example_rows 2 1)
              (Some (fst (example_service 2 (example_rows 0 2))), ?g) of
         (r, service', g') \<Rightarrow> r = Inl (Engine_error ''degenerate data'') \<and> logger g' = []"
    using early by (auto simp: example_service_def split: prod.splits)
  have b: "case iterate_route late_failing_engine (example_rows 2 1)
              (Some (fst (example_service 2 (example_rows 0 2))), ?g) of
         (r, service', g') \<Rightarrow> r = Inl (Engine_error ''degenerate data'') \<and> logger g' = []"
    using late by (auto simp: example_service_def split: prod.splits)
  from a b example_trim example_failing_execute example_late_metrics show ?thesis
    by simp
qed

text \<open>
  The claim as stated has the call return its acknowledgment. Here the engine raises and
  the view function is left by the exception.
\<close>

theorem engine_failure_invisible_counterexample:
  "fst (iterate_route failing_engine (example_rows 2 1)
          (Some (fst (example_service 2 (example_rows 0 2))),
           snd (example_service 2 (example_rows 0 2))))
     = Inl (Engine_error ''degenerate data'')
   \<and> fst (iterate_route failing_engine (example_rows 2 1)
          (Some (fst (example_service 2 (example_rows 0 2))),
           snd (example_service 2 (example_rows 0 2))))
     \<noteq> Inr (Text_response ''ok'')
   \<and> fst (iterate_route late_failing_engine (example_rows 2 1)
          (Some (fst (example_service 2 (example_rows 0 2))),
           snd (example_service 2 (example_rows 0 2))))
     = Inl (Engine_error ''degenerate data'')"
proof -
  have "fst (iterate_route failing_engine (example_rows 2 1)
          (Some (fst (example_service 2 (example_rows 0 2))),
           snd (example_service 2 (example_rows 0 2))))
     = Inl (Engine_error ''degenerate data'')"
    using iterate_engine_failure [OF example_service_ready example_failing_execute,
          of "snd (example_service 2 (example_rows 0 2))"]
    by (simp add: iterate_route_def)
  moreover have "fst (iterate_route late_failing_engine (example_rows 2 1)
          (Some (fst (example_service 2 (example_rows 0 2))),
           snd (example_service 2 (example_rows 0 2))))
     = Inl (Engine_error ''degenerate data'')"
    using iterate_metrics_failure [OF example_service_ready example_late_execute
          example_hash_labelnames example_late_metrics example_late_publish]
    by (simp add: iterate_route_def)
  ultimately show ?thesis by simp
qed

section \<open>Seeding with a window of no rows\<close>

text \<open>
  Claim C7 at \<open>window_size = 0\<close>, with \<open>use_reference\<close> and a dataset of three rows.
  The slices \<open>iloc[:-0]\<close> and \<open>iloc[-0:]\<close> are \<open>iloc[:0]\<close> and \<open>iloc[0:]\<close>: the
  reference is left with no row, the buffer is seeded with the whole dataset, and the
  fingerprint is that of the empty reference.
\<close>

theorem seeding_with_window_zero:
  "(case MonitoringService steady_engine (example_rows 100 3) (example_options 0 True) ()
           fresh_process of
      Inl e \<Rightarrow> False
    | Inr (self, g) \<Rightarrow>
        entries (reference self) = []
        \<and> current self = example_rows 100 3
        \<and> hash self = fingerprint steady_engine (empty_frame [''x''])
        \<and> shape0 (current self) = 3)"
  by (simp add: MonitoringService_def example_options_def monitor_mapping_def Gauge_def
      fresh_process_def steady_engine_def example_rows_def iloc_upto_def iloc_from_def
      slice_bound_def empty_frame_def shape0_def Let_def)

section \<open>An empty batch\<close>

text \<open>
  Claim C8, as amended. A call that delivers no rows adds nothing to the buffer and leaves
  the counter of pending rows and the reference as they were. While the buffer holds fewer
  than \<open>window_size\<close> rows, the call invokes no evaluation and changes no gauge; it only
  logs the notice. When the buffer already holds \<open>window_size\<close> rows or more, the call runs
  one evaluation on the window (the buffer cut to its last \<open>window_size\<close> rows, so an
  unchanged buffer when it holds exactly that many).
\<close>

theorem empty_batch:
  assumes "entries b = []"
  shows "(case iterate env b (self, g) of (res, self', g') \<Rightarrow>
            new_rows self' = new_rows self \<and> reference self' = reference self
            \<and> (shape0 (current self) < window_size (options self) \<longrightarrow>
                 res = None \<and> rows_of (current self') = rows_of (current self)
                 \<and> executed g' = executed g \<and> metrics self' = metrics self
                 \<and> hash_metric self' = hash_metric self \<and> registry g' = registry g
                 \<and> logger g' = logger g @ [Info_not_enough_data (shape0 (current self))
                                             (window_size (options self))])
            \<and> (0 \<le> window_size (options self)
                 \<and> window_size (options self) \<le> shape0 (current self) \<longrightarrow>
                 executed g' = executed g @ [(reference self, current self', column_mapping self)]
                 \<and> rows_of (current self')
                     = drop (nat (shape0 (current self) - window_size (options self)))
                         (rows_of (current self))))"
proof -
  have b0: "shape0 b = 0" "rows_of b = []"
    using assms by (simp_all add: shape0_def rows_of_def)
  obtain res self' g' where r: "iterate env b (self, g) = (res, self', g')"
    by (cases "iterate env b (self, g)") auto
  have nr: "new_rows self' = new_rows self" and ref: "reference self' = reference self"
    using iterate_executed_cases [OF r] iterate_frame_fields [OF r] b0 by auto
  have skip: "res = None \<and> rows_of (current self') = rows_of (current self)
                 \<and> executed g' = executed g \<and> metrics self' = metrics self
                 \<and> hash_metric self' = hash_metric self \<and> registry g' = registry g
                 \<and> logger g' = logger g @ [Info_not_enough_data (shape0 (current self))
                                             (window_size (options self))]"
    if "shape0 (current self) < window_size (options self)"
  proof -
    from that have "shape0 (current self) + shape0 b < window_size (options self)"
      by (simp add: b0)
    from iterate_skip [OF this, of env g] r show ?thesis
      by (auto simp: b0 rows_of_append)
  qed
  have eval: "executed g' = executed g @ [(reference self, current self', column_mapping self)]
                 \<and> rows_of (current self')
                     = drop (nat (shape0 (current self) - window_size (options self)))
                         (rows_of (current self))"
    if "0 \<le> window_size (options self) \<and> window_size (options self) \<le> shape0 (current self)"
  proof -
    from that have w: "0 \<le> window_size (options self)"
        "window_size (options self) \<le> shape0 (current self) + shape0 b"
      by (simp_all add: b0)
    from iterate_evaluates [OF w, of env g] iterate_window_rows [OF w, of env g] r
    show ?thesis by (simp add: b0)
  qed
  from nr ref skip eval show ?thesis
    by (simp add: r)
qed

theorem empty_batch_witness:
  "entries (empty_frame [''x'']) = ([] :: (int \<times> int row) list)
   \<and> shape0 (current (fst (example_service 2 (example_rows 0 1)))) < 2
   \<and> (case iterate steady_engine (empty_frame [''x'']) (example_service 2 (example_rows 0 1)) of
         (res, self', g') \<Rightarrow>
           res = None \<and> new_rows self' = 0 \<and> executed g' = []
           \<and> rows_of (current self') = rows_of (example_rows 0 1))
   \<and> (0::int) \<le> 2 \<and> 2 \<le> shape0 (current (fst (example_service 2 (example_rows 0 2))))
   \<and> (case iterate steady_engine (empty_frame [''x'']) (example_service 2 (example_rows 0 2)) of
         (res, self', g') \<Rightarrow>
           new_rows self' = 0
           \<and> executed g' = [(example_rows 100 3, current self', ())]
           \<and> rows_of (current self') = rows_of (example_rows 0 2))"
proof -
  have e: "entries (empty_frame [''x'']) = ([] :: (int \<times> int row) list)"
    by (simp add: empty_frame_def)
  note below = empty_batch [OF e, where env = steady_engine
      and self = "fst (example_service 2 (example_rows 0 1))"
      and g = "snd (example_service 2 (example_rows 0 1))"]
  note full = empty_batch [OF e, where env = steady_engine
      and self = "fst (example_service 2 (example_rows 0 2))"
      and g = "snd (example_service 2 (example_rows 0 2))"]
  have a: "case iterate steady_engine (empty_frame [''x'']) (example_service 2 (example_rows 0 1)) of
         (res, self', g') \<Rightarrow>
           res = None \<and> new_rows self' = 0 \<and> executed g' = []
           \<and> rows_of (current self') = rows_of (example_rows 0 1)"
    using below
    by (simp add: shape0_example_service shape0_example_rows split: prod.splits)
       (simp add: example_service_def)
  have b: "case iterate steady_engine (empty_frame [''x'']) (example_service 2 (example_rows 0 2)) of
         (res, self', g') \<Rightarrow>
           new_rows self' = 0
           \<and> executed g' = [(example_rows 100 3, current self', ())]
           \<and> rows_of (current self') = rows_of (example_rows 0 2)"
    using full
    by (simp add: shape0_example_service shape0_example_rows split: prod.splits)
       (simp add: example_service_def)
  from e a b show ?thesis
    by (simp add: shape0_example_service shape0_example_rows)
qed

text \<open>
  The claim as stated makes an empty batch a no-op in every state. On a buffer that already
  holds \<open>window_size\<close> rows, a call with no rows invokes the engine and sets a gauge.
\<close>

theorem empty_batch_counterexample:
  "entries (empty_frame [''x'']) = ([] :: (int \<times> int row) list)
   \<and> shape0 (current (fst (example_service 2 (example_rows 0 2)))) = 2
   \<and> executed (snd (example_service 2 (example_rows 0 2))) = []
   \<and> length (executed (snd (snd (iterate steady_engine (empty_frame [''x''])
                                     (example_service 2 (example_rows 0 2)))))) = 1"
proof -
  let ?st = "example_service 2 (example_rows 0 2)"
  have "\<exists>res self' g'. iterate steady_engine (empty_frame [''x'']) (fst ?st, snd ?st) = (res, self', g')
           \<and> executed g' = executed (snd ?st) @ [(reference (fst ?st), current self', column_mapping (fst ?st))]
           \<and> shape0 (current self') = window_size (options (fst ?st))
           \<and> new_rows self' = new_rows (fst ?st) \<and> options self' = options (fst ?st)"
    by (rule iterate_evaluates)
       (simp_all add: shape0_example_service shape0_example_rows shape0_empty_frame)
  then have "length (executed (snd (snd (iterate steady_engine (empty_frame [''x'']) ?st)))) = 1"
    by (auto simp: example_service_def)
  then show ?thesis
    by (simp add: shape0_example_service shape0_example_rows)
       (simp add: example_service_def empty_frame_def)
qed

section \<open>Metric identities\<close>

text \<open>
  Claim C9. Take one round of the publishing loop for a metric \<open>name\<close>, with the
  dictionary \<open>ms\<close> of the service and the registry \<open>reg\<close> of the process. If the name is
  new (its key is neither in the dictionary nor registered), the round constructs one
  gauge, registers the key and stores the gauge under it, with the sorted keys of the labels
  as its label names (none for absent labels). If the key is in the dictionary, no gauge is
  constructed: the stored gauge is used, its label names stay, an unlabelled publish on a
  gauge without labels overwrites the one sample of the empty tuple, a labelled publish with
  the gauge's label keys overwrites the sample of that tuple of label values and no other,
  and a publish that raises leaves the gauge as it was. No other key of the dictionary is
  touched. Over the life of a service constructed in a process with an empty registry, after
  any sequence of calls every key of the dictionary has been registered exactly once and no
  other key at all, the service's own fingerprint gauge apart.
\<close>

theorem gauge_identity:
  assumes "MonitoringService env ref opts cm proc = Inr start" and "registry proc = []"
  shows "(case publish (name, v, lbls) (ms, reg) of (res, ms', reg') \<Rightarrow>
            (ms (''evidently:'' @ name) = None \<and> ''evidently:'' @ name \<notin> set reg \<longrightarrow>
               reg' = reg @ [''evidently:'' @ name]
               \<and> (case ms' (''evidently:'' @ name) of
                     None \<Rightarrow> False
                   | Some g' \<Rightarrow>
                       labelnames g' = (case lbls of None \<Rightarrow> [] | Some kw \<Rightarrow> sort (map fst kw))))
          \<and> (\<forall>g0. ms (''evidently:'' @ name) = Some g0 \<longrightarrow>
               reg' = reg
               \<and> (case ms' (''evidently:'' @ name) of
                     None \<Rightarrow> False
                   | Some g' \<Rightarrow>
                       labelnames g' = labelnames g0
                       \<and> (lbls = None \<and> labelnames g0 = [] \<longrightarrow>
                            res = None \<and> g' = g0\<lparr>samples := (samples g0)([] \<mapsto> v)\<rparr>)
                       \<and> (\<forall>kw. lbls = Some kw \<and> labelnames g0 \<noteq> []
                                 \<and> sort (map fst kw) = sort (labelnames g0) \<longrightarrow>
                            res = None
                            \<and> g' = g0\<lparr>samples :=
                                        (samples g0)(labelvalues (labelnames g0) kw \<mapsto> v)\<rparr>)
                       \<and> (res \<noteq> None \<longrightarrow> g' = g0)))
          \<and> (\<forall>k. k \<noteq> ''evidently:'' @ name \<longrightarrow> ms' k = ms k))
       \<and> (case iterate_all env bs start of (self', g') \<Rightarrow>
            \<forall>k. k \<noteq> ''evidently:reference_dataset_hash'' \<longrightarrow>
                count_list (registry g') k = (if k \<in> dom (metrics self') then 1 else 0))"
proof
  show "case publish (name, v, lbls) (ms, reg) of (res, ms', reg') \<Rightarrow>
            (ms (''evidently:'' @ name) = None \<and> ''evidently:'' @ name \<notin> set reg \<longrightarrow>
               reg' = reg @ [''evidently:'' @ name]
               \<and> (case ms' (''evidently:'' @ name) of
                     None \<Rightarrow> False
                   | Some g' \<Rightarrow>
                       labelnames g' = (case lbls of None \<Rightarrow> [] | Some kw \<Rightarrow> sort (map fst kw))))
          \<and> (\<forall>g0. ms (''evidently:'' @ name) = Some g0 \<longrightarrow>
               reg' = reg
               \<and> (case ms' (''evidently:'' @ name) of
                     None \<Rightarrow> False
                   | Some g' \<Rightarrow>
                       labelnames g' = labelnames g0
                       \<and> (lbls = None \<and> labelnames g0 = [] \<longrightarrow>
                            res = None \<and> g' = g0\<lparr>samples := (samples g0)([] \<mapsto> v)\<rparr>)
                       \<and> (\<forall>kw. lbls = Some kw \<and> labelnames g0 \<noteq> []
                                 \<and> sort (map fst kw) = sort (labelnames g0) \<longrightarrow>
                            res = None
                            \<and> g' = g0\<lparr>samples :=
                                        (samples g0)(labelvalues (labelnames g0) kw \<mapsto> v)\<rparr>)
                       \<and> (res \<noteq> None \<longrightarrow> g' = g0)))
          \<and> (\<forall>k. k \<noteq> ''evidently:'' @ name \<longrightarrow> ms' k = ms k)"
    unfolding publish_unfold
    by (cases lbls)
       (auto simp: Let_def gauge_set_def gauge_labels_set_def split: option.splits sum.splits)
next
  obtain self0 proc' where start: "start = (self0, proc')" by (cases start)
  obtain self' g' where st: "iterate_all env bs (self0, proc') = (self', g')"
    by (cases "iterate_all env bs (self0, proc')")
  have fresh: "metrics self0 = Map.empty" "registry proc' = [''evidently:reference_dataset_hash'']"
    using MonitoringService_fields [of env ref opts cm proc self0 proc'] assms
    by (simp_all add: start)
  from iterate_all_metrics_steps [OF st] fresh
  have "\<forall>k. count_list (registry g') k
          = count_list [''evidently:reference_dataset_hash''] k
            + (if k \<in> dom (metrics self') then 1 else 0)"
    by simp
  then show "case iterate_all env bs start of (self', g') \<Rightarrow>
            \<forall>k. k \<noteq> ''evidently:reference_dataset_hash'' \<longrightarrow>
                count_list (registry g') k = (if k \<in> dom (metrics self') then 1 else 0)"
    by (simp add: start st)
qed

theorem gauge_identity_witness:
  "MonitoringService steady_engine (example_rows 100 3) (example_options 2 False) () fresh_process
     = Inr (example_service 2 (empty_frame [''x'']))
   \<and> registry fresh_process = []
   \<and> (case publish (''p_value'', 5 :: int, Some [(''feature'', ''age''), (''dataset'', ''current'')])
              (Map.empty, [''evidently:reference_dataset_hash'']) of
         (res, ms', reg') \<Rightarrow>
           reg' = [''evidently:reference_dataset_hash'', ''evidently:p_value'']
           \<and> (case ms' ''evidently:p_value'' of
                 None \<Rightarrow> False
               | Some g' \<Rightarrow> labelnames g' = [''dataset'', ''feature'']))
   \<and> (case publish (''p_value'', 7 :: int, Some [(''dataset'', ''current''), (''feature'', ''bmi'')])
              ([''evidently:p_value'' \<mapsto>
                  \<lparr>labelnames = [''dataset'', ''feature''],
                   samples = [[''current'', ''age''] \<mapsto> 5]\<rparr>],
               [''evidently:reference_dataset_hash'', ''evidently:p_value'']) of
         (res, ms', reg') \<Rightarrow>
           res = None
           \<and> reg' = [''evidently:reference_dataset_hash'', ''evidently:p_value'']
           \<and> ms' ''evidently:p_value''
               = Some \<lparr>labelnames = [''dataset'', ''feature''],
                        samples = [[''current'', ''age''] \<mapsto> 5, [''current'', ''bmi''] \<mapsto> 7]\<rparr>)
   \<and> count_list (registry (snd (iterate_all steady_engine [example_rows 0 2, example_rows 2 1]
                                  (example_service 2 (empty_frame [''x'']))))) 
         ''evidently:data_drift:n_drifted_features'' = 1"
proof -
  let ?st0 = "example_service 2 (empty_frame [''x''])"
  let ?key = "''evidently:data_drift:n_drifted_features''"
  let ?g5 = "\<lparr>labelnames = [''dataset'', ''feature''],
              samples = [[''current'', ''age''] \<mapsto> (5::int)]\<rparr>"
  note fresh = example_fresh [of 2]
  have reg0: "registry fresh_process = []"
    by (simp add: fresh_process_def)
  note inst = gauge_identity [OF fresh reg0]
  have first: "case publish (''p_value'', 5 :: int, Some [(''feature'', ''age''), (''dataset'', ''current'')])
              (Map.empty, [''evidently:reference_dataset_hash'']) of
         (res, ms', reg') \<Rightarrow>
           reg' = [''evidently:reference_dataset_hash'', ''evidently:p_value'']
           \<and> (case ms' ''evidently:p_value'' of
                 None \<Rightarrow> False
               | Some g' \<Rightarrow> labelnames g' = [''dataset'', ''feature''])"
    using inst [where name = "''p_value''" and v = "5::int"
            and lbls = "Some [(''feature'', ''age''), (''dataset'', ''current'')]"
            and ms = Map.empty and reg = "[''evidently:reference_dataset_hash'']",
            THEN conjunct1] example_sort
    by (auto split: prod.splits option.splits)
  have srt: "sort [''dataset'', ''feature''] = [''dataset'', ''feature'']"
    by code_simp
  have vals: "labelvalues [''dataset'', ''feature''] [(''dataset'', ''current''), (''feature'', ''bmi'')]
              = [''current'', ''bmi'']"
    by (simp add: labelvalues_def)
  have second: "case publish (''p_value'', 7 :: int, Some [(''dataset'', ''current''), (''feature'', ''bmi'')])
              ([''evidently:p_value'' \<mapsto> ?g5],
               [''evidently:reference_dataset_hash'', ''evidently:p_value'']) of
         (res, ms', reg') \<Rightarrow>
           res = None
           \<and> reg' = [''evidently:reference_dataset_hash'', ''evidently:p_value'']
           \<and> ms' ''evidently:p_value''
               = Some \<lparr>labelnames = [''dataset'', ''feature''],
                        samples = [[''current'', ''age''] \<mapsto> 5, [''current'', ''bmi''] \<mapsto> 7]\<rparr>"
    using inst [where name = "''p_value''" and v = "7::int"
            and lbls = "Some [(''dataset'', ''current''), (''feature'', ''bmi'')]"
            and ms = "[''evidently:p_value'' \<mapsto> ?g5]"
            and reg = "[''evidently:reference_dataset_hash'', ''evidently:p_value'']",
            THEN conjunct1] srt vals
    by (auto split: prod.splits option.splits)
  obtain self1 g1 where s1: "snd (iterate steady_engine (example_rows 0 2) ?st0) = (self1, g1)"
    by (cases "snd (iterate steady_engine (example_rows 0 2) ?st0)")
  obtain self2 g2 where s2: "iterate_all steady_engine [example_rows 2 1] (self1, g1) = (self2, g2)"
    by (cases "iterate_all steady_engine [example_rows 2 1] (self1, g1)")
  have "metrics self1 ?key \<noteq> None"
    using example_first_evaluation by (simp add: s1)
  then have "?key \<in> dom (metrics self2)"
    using iterate_all_metrics_steps [OF s2] by auto
  moreover have all: "iterate_all steady_engine [example_rows 0 2, example_rows 2 1] ?st0 = (self2, g2)"
    using s1 s2 by simp
  ultimately have cnt: "count_list (registry (snd (iterate_all steady_engine
                           [example_rows 0 2, example_rows 2 1] ?st0))) ?key = 1"
    using inst [where bs = "[example_rows 0 2, example_rows 2 1]", THEN conjunct2]
    by (simp only: all) simp
  from fresh reg0 first second cnt show ?thesis
    by (simp only: simp_thms)
qed

section \<open>The counter of pending rows\<close>

text \<open>
  Claim C10. Start from a freshly constructed service and make any sequence of calls. A
  further call that runs an evaluation (the engine is invoked) leaves the counter of pending
  rows at the value it had before the call: the increment by the batch size is cancelled
  by the decrement. A further call that skips the evaluation adds its batch size to the
  counter, and nothing ever deducts it: if that batch has at least one row, the counter
  is positive after the call and after every later sequence of calls.
\<close>

theorem pending_rows_never_deducted:
  assumes "MonitoringService env ref opts cm proc = Inr start"
  shows "(case iterate env b (iterate_all env bs start) of (res, self', g') \<Rightarrow>
            executed g' \<noteq> executed (snd (iterate_all env bs start)) \<longrightarrow>
            new_rows self' = new_rows (fst (iterate_all env bs start)))
       \<and> (shape0 (current (fst (iterate_all env bs start))) + shape0 b < window_size opts
            \<and> entries b \<noteq> [] \<longrightarrow>
          new_rows (fst (snd (iterate env b (iterate_all env bs start))))
            = new_rows (fst (iterate_all env bs start)) + shape0 b
          \<and> 0 < new_rows (fst (iterate_all env later
                                  (snd (iterate env b (iterate_all env bs start))))))"
proof
  obtain self g where st: "iterate_all env bs start = (self, g)"
    by (cases "iterate_all env bs start")
  obtain res self' g' where r: "iterate env b (self, g) = (res, self', g')"
    by (cases "iterate env b (self, g)") auto
  from iterate_executed_cases [OF r]
  show "case iterate env b (iterate_all env bs start) of (res, self', g') \<Rightarrow>
            executed g' \<noteq> executed (snd (iterate_all env bs start)) \<longrightarrow>
            new_rows self' = new_rows (fst (iterate_all env bs start))"
    by (auto simp: st r)
next
  obtain self0 proc' where start: "start = (self0, proc')" by (cases start)
  obtain self g where st: "iterate_all env bs start = (self, g)"
    by (cases "iterate_all env bs start")
  have "options (fst (iterate_all env bs start)) = options (fst start)"
    by (rule iterate_all_options)
  then have "options self = options (fst start)"
    by (simp only: st fst_conv)
  then have "options self = options self0"
    by (simp add: start)
  moreover have fresh: "options self0 = opts \<and> new_rows self0 = 0"
    using MonitoringService_fields [of env ref opts cm proc self0 proc'] assms
    by (simp add: start)
  ultimately have opts: "window_size (options self) = window_size opts" by simp
  have "new_rows (fst start) \<le> new_rows (fst (iterate_all env bs start))"
    by (rule iterate_all_new_rows_mono)
  then have "new_rows (fst start) \<le> new_rows self"
    by (simp only: st fst_conv)
  then have nonneg: "0 \<le> new_rows self"
    using fresh by (simp add: start)
  show "shape0 (current (fst (iterate_all env bs start))) + shape0 b < window_size opts
            \<and> entries b \<noteq> [] \<longrightarrow>
          new_rows (fst (snd (iterate env b (iterate_all env bs start))))
            = new_rows (fst (iterate_all env bs start)) + shape0 b
          \<and> 0 < new_rows (fst (iterate_all env later
                                  (snd (iterate env b (iterate_all env bs start)))))"
  proof
    assume a: "shape0 (current (fst (iterate_all env bs start))) + shape0 b < window_size opts
            \<and> entries b \<noteq> []"
    then have skip: "shape0 (current self) + shape0 b < window_size (options self)"
      by (simp add: st opts)
    have pos: "0 < shape0 b"
      using a by (simp add: shape0_def)
    have after: "new_rows (fst (snd (iterate env b (self, g)))) = new_rows self + shape0 b"
      by (simp add: iterate_skip [OF skip])
    have "new_rows (fst (snd (iterate env b (self, g))))
          \<le> new_rows (fst (iterate_all env later (snd (iterate env b (self, g)))))"
      by (rule iterate_all_new_rows_mono)
    with after pos nonneg
    show "new_rows (fst (snd (iterate env b (iterate_all env bs start))))
            = new_rows (fst (iterate_all env bs start)) + shape0 b
          \<and> 0 < new_rows (fst (iterate_all env later
                                  (snd (iterate env b (iterate_all env bs start)))))"
      by (simp add: st)
  qed
qed

theorem pending_rows_never_deducted_witness:
  "MonitoringService steady_engine (example_rows 100 3) (example_options 2 False) () fresh_process
     = Inr (example_service 2 (empty_frame [''x'']))
   \<and> (case iterate steady_engine (example_rows 1 3)
              (iterate_all steady_engine [example_rows 0 1]
                 (example_service 2 (empty_frame [''x'']))) of
         (res, self', g') \<Rightarrow>
           executed g' \<noteq> executed (snd (iterate_all steady_engine [example_rows 0 1]
                                            (example_service 2 (empty_frame [''x'']))))
           \<and> new_rows self' = 1)
   \<and> shape0 (current (fst (iterate_all steady_engine []
                                (example_service 2 (empty_frame [''x''])))))
         + shape0 (example_rows 0 1) < 2
   \<and> entries (example_rows 0 1) \<noteq> []
   \<and> 0 < new_rows (fst (iterate_all steady_engine [example_rows 1 3]
                            (snd (iterate steady_engine (example_rows 0 1)
                                    (iterate_all steady_engine []
                                       (example_service 2 (empty_frame [''x''])))))))"
proof -
  let ?st0 = "example_service 2 (empty_frame [''x''])"
  let ?st1 = "iterate_all steady_engine [example_rows 0 1] ?st0"
  note fresh = example_fresh [of 2]
  have st1: "?st1 = (fst ?st0\<lparr>current := append_frame (empty_frame [''x'']) (example_rows 0 1),
                               new_rows := 1\<rparr>,
                     snd ?st0\<lparr>logger := [Info_not_enough_data 1 2]\<rparr>)"
    by (simp add: example_warm_up del: One_nat_def)
  obtain res self' g' where r: "iterate steady_engine (example_rows 1 3) ?st1 = (res, self', g')"
    and ex: "executed g' = executed (snd ?st1) @ [(reference (fst ?st1), current self', ())]"
    using iterate_evaluates [of "fst ?st1" "example_rows 1 3" steady_engine "snd ?st1"]
    unfolding st1
    by (auto simp: example_service_def example_options_def shape0_append shape0_example_rows
        shape0_empty_frame)
  have n1: "new_rows (fst ?st1) = 1"
    unfolding st1 by simp
  have a: "case iterate steady_engine (example_rows 1 3) ?st1 of
         (res, self', g') \<Rightarrow> executed g' \<noteq> executed (snd ?st1) \<and> new_rows self' = 1"
    using pending_rows_never_deducted [OF fresh, where b = "example_rows 1 3"
            and bs = "[example_rows 0 1]"] ex n1
    by (simp add: r del: iterate_all.simps One_nat_def)
  have h: "shape0 (current (fst (iterate_all steady_engine [] ?st0))) + shape0 (example_rows 0 1) < 2"
    by (simp add: example_service_def shape0_example_rows shape0_empty_frame)
  have e: "entries (example_rows 0 1) \<noteq> []"
    by (simp add: example_rows_def)
  have b: "0 < new_rows (fst (iterate_all steady_engine [example_rows 1 3]
                            (snd (iterate steady_engine (example_rows 0 1)
                                    (iterate_all steady_engine [] ?st0)))))"
    using pending_rows_never_deducted [OF fresh, where b = "example_rows 0 1"
            and bs = "[]" and later = "[example_rows 1 3]"] h e
    by (simp add: example_options_def del: iterate_all.simps One_nat_def)
  from fresh a h e b show ?thesis
    by (simp del: iterate_all.simps One_nat_def)
qed

end
